theory Spec2Isabelle
  imports Complex_Main
begin

section \<open>Machine integers and timestamps\<close>

text \<open>
  Go's \<open>int64\<close> (and \<open>time.Duration\<close>, \<open>int\<close> on a 64-bit target) is modelled as
  \<open>int\<close> with the two's complement wrap-around written out: every arithmetic result of
  the source is passed through \<open>wrap64\<close>. Go's \<open>/\<close> truncates towards zero and
  \<open>%\<close> takes the sign of the dividend.
\<close>

definition wrap64 :: "int \<Rightarrow> int" where
  "wrap64 x = (x + 2 ^ 63) mod 2 ^ 64 - 2 ^ 63"

definition go_div :: "int \<Rightarrow> int \<Rightarrow> int" where
  "go_div a b = wrap64 (sgn a * sgn b * (\<bar>a\<bar> div \<bar>b\<bar>))"

definition go_rem :: "int \<Rightarrow> int \<Rightarrow> int" where
  "go_rem a b = sgn a * (\<bar>a\<bar> mod \<bar>b\<bar>)"

text \<open>
  A \<open>time.Time\<close> is modelled by its instant: the (unbounded) number of nanoseconds since
  the Unix epoch. The zero \<open>time.Time\<close> is January 1, year 1, 00:00:00 UTC, which lies
  62135596800 seconds before the epoch. \<open>time.Unix(0, n)\<close> is the instant \<open>n\<close>,
  \<open>UnixNano\<close> reads the instant back as an \<open>int64\<close>, \<open>Truncate\<close> rounds down to a
  multiple of the duration counted from the zero time and returns its argument for a
  duration that is not positive.
\<close>

type_synonym gotime = int

definition zero_time :: gotime where
  "zero_time = - 62135596800000000000"

definition IsZero_time :: "gotime \<Rightarrow> bool" where
  "IsZero_time t = (t = zero_time)"

definition Unix_nano :: "int \<Rightarrow> gotime" where
  "Unix_nano n = n"

definition UnixNano :: "gotime \<Rightarrow> int" where
  "UnixNano t = wrap64 t"

definition Truncate :: "gotime \<Rightarrow> int \<Rightarrow> gotime" where
  "Truncate t d = (if d \<le> 0 then t else t - (t - zero_time) mod d)"

definition Sub :: "gotime \<Rightarrow> gotime \<Rightarrow> int" where
  "Sub t u = (let d = t - u in
     if d > 2 ^ 63 - 1 then 2 ^ 63 - 1 else if d < - (2 ^ 63) then - (2 ^ 63) else d)"

text \<open>
  Modelled from the spec: the minimum and maximum representable timestamps
  (\<open>influxql.MinTime\<close>, \<open>influxql.MaxTime\<close>, \<open>models.MinNanoTime\<close>), which compile.go
  uses and which are declared outside it. Timestamps are \<open>int64\<close> nanoseconds; the two
  lowest and the greatest value are reserved.
\<close>

definition MinTime :: int where
  "MinTime = - (2 ^ 63) + 2"

definition MaxTime :: int where
  "MaxTime = 2 ^ 63 - 1 - 1"

definition MinNanoTime :: int where
  "MinNanoTime = - (2 ^ 63) + 2"

record TimeRange =
  Min_f :: gotime
  Max_f :: gotime

text \<open>
  Modelled from the spec: the accessors of \<open>influxql.TimeRange\<close> (declared outside
  compile.go). A bound that is the zero time is an absent bound and reads as the minimum
  (maximum) representable timestamp.
\<close>

definition MinTime_of :: "TimeRange \<Rightarrow> int" where
  "MinTime_of t = (if IsZero_time (Min_f t) then MinTime else UnixNano (Min_f t))"

definition MaxTime_of :: "TimeRange \<Rightarrow> int" where
  "MaxTime_of t = (if IsZero_time (Max_f t) then MaxTime else UnixNano (Max_f t))"

text \<open>
  Modelled from the spec: \<open>TimeRange.Intersect\<close> (declared outside compile.go), which
  "intersects [the] resolved time range with the parent's (child range is clamped inside
  the parent's, never widened)": a bound of the other range replaces this one's when this
  one is absent or the other is tighter; an absent bound of the other range changes nothing.
\<close>

definition Intersect :: "TimeRange \<Rightarrow> TimeRange \<Rightarrow> TimeRange" where
  "Intersect t other =
     (let t1 = (if \<not> IsZero_time (Min_f other) \<and> (IsZero_time (Min_f t) \<or> Min_f other > Min_f t)
                then t\<lparr>Min_f := Min_f other\<rparr> else t)
      in if \<not> IsZero_time (Max_f other) \<and> (IsZero_time (Max_f t1) \<or> Max_f other < Max_f t1)
         then t1\<lparr>Max_f := Max_f other\<rparr> else t1)"

section \<open>The syntax tree\<close>

text \<open>
  The expressions of \<open>influxql\<close> that compile.go inspects. A \<open>VarRef\<close> carries its name
  (its data type is never read here), a \<open>Call\<close> its name and arguments, \<open>Distinct\<close> the
  name of the field of the \<open>DISTINCT x\<close> syntax form.
\<close>

datatype expr =
    VarRef string
  | Wildcard
  | RegexLiteral string
  | Call string "expr list"
  | Distinct string
  | BinaryExpr string expr expr
  | ParenExpr expr
  | IntegerLiteral int
  | NumberLiteral real
  | DurationLiteral int
  | TimeLiteral gotime
  | StringLiteral string
  | BooleanLiteral bool
  | NilLiteral

text \<open>The expressions that implement the \<open>influxql.Literal\<close> interface.\<close>

fun is_Literal :: "expr \<Rightarrow> bool" where
  "is_Literal (RegexLiteral _) = True"
| "is_Literal (IntegerLiteral _) = True"
| "is_Literal (NumberLiteral _) = True"
| "is_Literal (DurationLiteral _) = True"
| "is_Literal (TimeLiteral _) = True"
| "is_Literal (StringLiteral _) = True"
| "is_Literal (BooleanLiteral _) = True"
| "is_Literal NilLiteral = True"
| "is_Literal _ = False"

text \<open>\<open>Distinct.NewCall\<close>: the call \<open>distinct(x)\<close> of the syntax form \<open>DISTINCT x\<close>.\<close>

definition NewCall :: "string \<Rightarrow> expr" where
  "NewCall v = Call ''distinct'' [VarRef v]"

datatype FillOption = NullFill | NoFill | NumberFill | PreviousFill | LinearFill

record field =
  Expr :: expr
  Alias :: string

record sort_field =
  SortName :: string
  SortAscending :: bool

datatype source = Measurement string | SubQuery select_statement
and select_statement = SelectStatement
  (Fields: "field list")
  (Dimensions: "expr list")
  (Sources: "source list")
  (Condition: "expr option")
  (SortFields: "sort_field list")
  (Limit: int)
  (Fill: FillOption)
  (Target: "string option")
  (IsRawQuery: bool)

text \<open>
  \<open>SelectStatement.TimeAscending\<close>: ascending unless the first explicit sort field says
  otherwise.
\<close>

definition TimeAscending :: "select_statement \<Rightarrow> bool" where
  "TimeAscending s = (case SortFields s of [] \<Rightarrow> True | f # _ \<Rightarrow> SortAscending f)"

section \<open>Errors\<close>

text \<open>
  One constructor for each error message of compile.go; the string is the function name the
  message is formatted with. \<open>ExternalError\<close> is an error returned by a collaborator
  (the condition resolver, the time literal parser, the shard mapper, the field rewriter),
  \<open>DivideByZeroPanic\<close> the run-time panic of an integer division by zero.
\<close>

datatype error =
    ExternalError string
  | DivideByZeroPanic
  | WildcardInBinaryExpr
  | RegexInBinaryExpr
  | BinaryOnTwoLiterals
  | Unimplemented
  | UnsupportedWildcard string
  | UnsupportedRegexField string
  | ExpectedFieldArgument string
  | UndefinedFunction string
  | InvalidNumberOfArguments string
  | ExpectedFloatArgument
  | SampleWindowTooSmall int
  | ExpectedIntegerArgument string
  | DurationMustBePositive int
  | SecondArgumentMustBeDuration string
  | RequiresGroupByInterval string
  | AggregateFunctionRequired string
  | MovingAverageWindowTooSmall int
  | SecondArgumentMustBeInteger string
  | HoltWintersSecondArgNotInteger string
  | HoltWintersSecondArgTooSmall string
  | HoltWintersThirdArgNotInteger string
  | HoltWintersThirdArgNegative string
  | MustUseAggregateFunction string
  | DistinctRequiresArgument
  | DistinctOnlyOneArgument
  | SelectorCannotBeCombined string
  | ExpectedIntegerLastArgument string
  | LimitMustBeAtLeastOne string int
  | LimitLargerThanStatementLimit string int int
  | ExpectedFirstArgumentField string
  | OnlyFieldsOrTagsAllowed string
  | TimeIsAFunction
  | OnlyTimeCallsAllowed
  | TimeDimensionArgumentCount
  | TimeDimensionMustHaveDuration
  | MultipleTimeDimensions
  | OffsetFunctionMustBeNow
  | OffsetNowRequiresNoArguments
  | OffsetMustBeDurationOrNow
  | OnlyTimeAndTagDimensions
  | AtLeastOneNonTimeField
  | FillNoneWithoutFunction
  | FillLinearWithoutFunction
  | GroupByRequiresAggregate
  | DistinctCannotBeCombined
  | MixingAggregateAndNonAggregate
  | MixingMultipleSelectors
  | SubqueryOrderMismatch
  | MaxSelectBucketsExceeded int int

section \<open>The compiled statement\<close>

record Interval =
  Duration :: int
  Offset :: int

text \<open>Modelled from the spec: \<open>Interval.IsZero\<close>, "zero means no grouping".\<close>

definition IsZero :: "Interval \<Rightarrow> bool" where
  "IsZero i = (Duration i = 0)"

record CompileOptions =
  Now :: gotime

text \<open>
  The accumulator of compile.go. \<open>Fields_c\<close> holds the top level field of each compiled
  field in order; the \<open>AllowWildcard\<close> flag of the field under compilation is threaded
  through \<open>compileExpr\<close> beside the statement, and the back pointer \<open>global\<close> is the
  statement that is passed along.
\<close>

record compiledStatement =
  Condition_c :: "expr option"
  TimeRange_c :: TimeRange
  Interval_c :: Interval
  InheritedInterval :: bool
  Ascending :: bool
  FunctionCalls :: "expr list"
  OnlySelectors :: bool
  HasDistinct :: bool
  FillOption_c :: FillOption
  TopBottomFunction :: string
  HasAuxiliaryFields :: bool
  Fields_c :: "field list"
  TimeFieldName :: string
  Limit_c :: int
  HasTarget :: bool
  Options :: CompileOptions

text \<open>
  The collaborators of the compiler that live outside compile.go, taken as parameters:
  the wall clock read by \<open>newCompiler\<close>, \<open>influxql.ConditionExpr\<close> (which splits the
  filter into the remaining condition and the time range, given the fixed now), the
  time literal test and parser of a string literal, and \<open>strings.ToLower\<close> of the Go
  standard library, the lower-casing of a string with the case mapping of Unicode.
\<close>

record externals =
  wall_clock :: gotime
  ConditionExpr :: "expr option \<Rightarrow> gotime \<Rightarrow> error + (expr option \<times> TimeRange)"
  IsTimeLiteral :: "string \<Rightarrow> bool"
  ToTimeLiteral :: "string \<Rightarrow> error + gotime"
  ToLower :: "string \<Rightarrow> string"

definition newCompiler :: "externals \<Rightarrow> CompileOptions \<Rightarrow> compiledStatement" where
  "newCompiler ext opt =
     (let opt' = (if IsZero_time (Now opt) then opt\<lparr>Now := wall_clock ext\<rparr> else opt) in
      \<lparr> Condition_c = None,
        TimeRange_c = \<lparr>Min_f = zero_time, Max_f = zero_time\<rparr>,
        Interval_c = \<lparr>Duration = 0, Offset = 0\<rparr>,
        InheritedInterval = False,
        Ascending = False,
        FunctionCalls = [],
        OnlySelectors = True,
        HasDistinct = False,
        FillOption_c = NullFill,
        TopBottomFunction = [],
        HasAuxiliaryFields = False,
        Fields_c = [],
        TimeFieldName = ''time'',
        Limit_c = 0,
        HasTarget = False,
        Options = opt' \<rparr>)"

section \<open>Dimensions\<close>

text \<open>The offset argument of \<open>time(d, offset)\<close>: the inner switch of \<open>compileDimensions\<close>.\<close>

fun compileOffset :: "externals \<Rightarrow> compiledStatement \<Rightarrow> expr \<Rightarrow> error + compiledStatement" where
  "compileOffset ext c (DurationLiteral v) =
     (if Duration (Interval_c c) = 0 then Inl DivideByZeroPanic
      else Inr (c\<lparr>Interval_c := (Interval_c c)\<lparr>Offset := go_rem v (Duration (Interval_c c))\<rparr>\<rparr>))"
| "compileOffset ext c (TimeLiteral t) =
     Inr (c\<lparr>Interval_c := (Interval_c c)\<lparr>Offset := Sub t (Truncate t (Duration (Interval_c c)))\<rparr>\<rparr>)"
| "compileOffset ext c (Call name args) =
     (if name \<noteq> ''now'' then Inl OffsetFunctionMustBeNow
      else if length args \<noteq> 0 then Inl OffsetNowRequiresNoArguments
      else let now = Now (Options c) in
        Inr (c\<lparr>Interval_c := (Interval_c c)\<lparr>Offset := Sub now (Truncate now (Duration (Interval_c c)))\<rparr>\<rparr>))"
| "compileOffset ext c (StringLiteral s) =
     (if IsTimeLiteral ext s then
        (case ToTimeLiteral ext s of
           Inl e \<Rightarrow> Inl e
         | Inr t \<Rightarrow> Inr (c\<lparr>Interval_c := (Interval_c c)\<lparr>Offset := Sub t (Truncate t (Duration (Interval_c c)))\<rparr>\<rparr>))
      else Inl OffsetMustBeDurationOrNow)"
| "compileOffset ext c _ = Inl OffsetMustBeDurationOrNow"

text \<open>One iteration of the loop of \<open>compileDimensions\<close>.\<close>

fun compileDimension :: "externals \<Rightarrow> compiledStatement \<Rightarrow> expr \<Rightarrow> error + compiledStatement" where
  "compileDimension ext c (VarRef v) =
     (if ToLower ext v = ''time'' then Inl TimeIsAFunction else Inr c)"
| "compileDimension ext c (Call name args) =
     (if name \<noteq> ''time'' then Inl OnlyTimeCallsAllowed
      else if length args < 1 \<or> length args > 2 then Inl TimeDimensionArgumentCount
      else case args ! 0 of
        DurationLiteral v \<Rightarrow>
          (if Duration (Interval_c c) \<noteq> 0 then Inl MultipleTimeDimensions
           else let c' = c\<lparr>Interval_c := (Interval_c c)\<lparr>Duration := v\<rparr>\<rparr> in
             if length args = 2 then compileOffset ext c' (args ! 1) else Inr c')
      | _ \<Rightarrow> Inl TimeDimensionMustHaveDuration)"
| "compileDimension ext c Wildcard = Inr c"
| "compileDimension ext c (RegexLiteral _) = Inr c"
| "compileDimension ext c _ = Inl OnlyTimeAndTagDimensions"

fun compileDimensions_loop :: "externals \<Rightarrow> compiledStatement \<Rightarrow> expr list \<Rightarrow> error + compiledStatement" where
  "compileDimensions_loop ext c [] = Inr c"
| "compileDimensions_loop ext c (d # ds) =
     (case compileDimension ext c d of
        Inl e \<Rightarrow> Inl e
      | Inr c' \<Rightarrow> compileDimensions_loop ext c' ds)"

definition compileDimensions :: "externals \<Rightarrow> compiledStatement \<Rightarrow> select_statement \<Rightarrow> error + compiledStatement" where
  "compileDimensions ext c stmt = compileDimensions_loop ext c (Dimensions stmt)"

section \<open>Preprocessing\<close>

definition preprocess :: "externals \<Rightarrow> compiledStatement \<Rightarrow> select_statement \<Rightarrow> error + compiledStatement" where
  "preprocess ext c stmt =
     (let c1 = c\<lparr>Ascending := TimeAscending stmt, Limit_c := Limit stmt,
                 HasTarget := (Target stmt \<noteq> None)\<rparr> in
      case ConditionExpr ext (Condition stmt) (Now (Options c1)) of
        Inl e \<Rightarrow> Inl e
      | Inr (cond, t) \<Rightarrow>
         (let c2 = c1\<lparr>Condition_c := cond, TimeRange_c := t\<rparr> in
          case compileDimensions ext c2 stmt of
            Inl e \<Rightarrow> Inl e
          | Inr c3 \<Rightarrow>
             (let c4 = c3\<lparr>FillOption_c := Fill stmt\<rparr>;
                  c5 = (if IsZero_time (Min_f (TimeRange_c c4))
                        then c4\<lparr>TimeRange_c := (TimeRange_c c4)\<lparr>Min_f := Unix_nano MinTime\<rparr>\<rparr>
                        else c4);
                  c6 = (if IsZero_time (Max_f (TimeRange_c c5))
                        then (if \<not> IsZero (Interval_c c5)
                              then c5\<lparr>TimeRange_c := (TimeRange_c c5)\<lparr>Max_f := Now (Options c5)\<rparr>\<rparr>
                              else c5\<lparr>TimeRange_c := (TimeRange_c c5)\<lparr>Max_f := Unix_nano MaxTime\<rparr>\<rparr>)
                        else c5)
              in Inr c6)))"

section \<open>Fields and expressions\<close>

definition compileSymbol :: "compiledStatement \<Rightarrow> bool \<Rightarrow> string \<Rightarrow> expr \<Rightarrow> error + compiledStatement" where
  "compileSymbol c aw name fld =
     (case fld of
        VarRef _ \<Rightarrow> Inr c
      | Wildcard \<Rightarrow>
          (if \<not> aw then Inl (UnsupportedWildcard name) else Inr (c\<lparr>OnlySelectors := False\<rparr>))
      | RegexLiteral _ \<Rightarrow>
          (if \<not> aw then Inl (UnsupportedRegexField name) else Inr (c\<lparr>OnlySelectors := False\<rparr>))
      | _ \<Rightarrow> Inl (ExpectedFieldArgument name))"

definition compileDistinct :: "compiledStatement \<Rightarrow> expr list \<Rightarrow> error + compiledStatement" where
  "compileDistinct c args =
     (if length args = 0 then Inl DistinctRequiresArgument
      else if length args \<noteq> 1 then Inl DistinctOnlyOneArgument
      else case args ! 0 of
        VarRef _ \<Rightarrow> Inr (c\<lparr>HasDistinct := True, OnlySelectors := False\<rparr>)
      | _ \<Rightarrow> Inl (ExpectedFieldArgument ''distinct''))"

definition compileFunction :: "compiledStatement \<Rightarrow> bool \<Rightarrow> string \<Rightarrow> expr list \<Rightarrow> error + compiledStatement" where
  "compileFunction c aw name args =
     (if name \<in> set [''max'', ''min'', ''first'', ''last'', ''count'', ''sum'', ''mean'',
                      ''median'', ''mode'', ''stddev'', ''spread''] then
        (let c1 = (if name \<in> set [''max'', ''min'', ''first'', ''last''] then c
                   else c\<lparr>OnlySelectors := False\<rparr>) in
         if length args \<noteq> 1 then Inl (InvalidNumberOfArguments name)
         else if name = ''count'' then
           (case args ! 0 of
              Call n a \<Rightarrow> (if n = ''distinct'' then compileDistinct c1 a
                           else compileSymbol c1 aw name (args ! 0))
            | Distinct v \<Rightarrow> (case NewCall v of Call _ a \<Rightarrow> compileDistinct c1 a
                                              | _ \<Rightarrow> compileDistinct c1 [])
            | _ \<Rightarrow> compileSymbol c1 aw name (args ! 0))
         else compileSymbol c1 aw name (args ! 0))
      else Inl (UndefinedFunction name))"

definition compilePercentile :: "compiledStatement \<Rightarrow> bool \<Rightarrow> expr list \<Rightarrow> error + compiledStatement" where
  "compilePercentile c aw args =
     (if length args \<noteq> 2 then Inl (InvalidNumberOfArguments ''percentile'')
      else case args ! 1 of
        IntegerLiteral _ \<Rightarrow> compileSymbol c aw ''percentile'' (args ! 0)
      | NumberLiteral _ \<Rightarrow> compileSymbol c aw ''percentile'' (args ! 0)
      | _ \<Rightarrow> Inl ExpectedFloatArgument)"

definition compileSample :: "compiledStatement \<Rightarrow> bool \<Rightarrow> expr list \<Rightarrow> error + compiledStatement" where
  "compileSample c aw args =
     (if length args \<noteq> 2 then Inl (InvalidNumberOfArguments ''sample'')
      else case args ! 1 of
        IntegerLiteral v \<Rightarrow>
          (if v \<le> 0 then Inl (SampleWindowTooSmall v)
           else compileSymbol c aw ''sample'' (args ! 0))
      | _ \<Rightarrow> Inl (ExpectedIntegerArgument ''sample''))"

definition compileIntegral :: "compiledStatement \<Rightarrow> bool \<Rightarrow> expr list \<Rightarrow> error + compiledStatement" where
  "compileIntegral c aw args =
     (if length args > 2 \<or> length args < 1 then Inl (InvalidNumberOfArguments ''integral'')
      else case (if length args = 2 then
                   (case args ! 1 of
                      DurationLiteral v \<Rightarrow> (if v \<le> 0 then Some (DurationMustBePositive v) else None)
                    | _ \<Rightarrow> Some (SecondArgumentMustBeDuration ''integral''))
                 else None) of
        Some e \<Rightarrow> Inl e
      | None \<Rightarrow> compileSymbol (c\<lparr>OnlySelectors := False\<rparr>) aw ''integral'' (args ! 0))"

text \<open>
  The \<open>VarRef\<close> branch of \<open>compileExpr\<close>: a bare variable reference requires auxiliary
  fields. \<open>compileTopBottom\<close> calls \<open>compileExpr\<close> on the variable references among its
  arguments, which takes this branch.
\<close>

definition compileVarRef :: "compiledStatement \<Rightarrow> compiledStatement" where
  "compileVarRef c = c\<lparr>HasAuxiliaryFields := True\<rparr>"

text \<open>The loop of \<open>compileTopBottom\<close> over the arguments between the first and the last.\<close>

fun compileTopBottom_loop :: "compiledStatement \<Rightarrow> string \<Rightarrow> expr list \<Rightarrow> error + compiledStatement" where
  "compileTopBottom_loop c name [] = Inr c"
| "compileTopBottom_loop c name (v # vs) =
     (case v of
        VarRef r \<Rightarrow>
          (if \<not> HasTarget c then
             compileTopBottom_loop
               (compileVarRef (c\<lparr>Fields_c := Fields_c c @ [\<lparr>Expr = VarRef r, Alias = []\<rparr>]\<rparr>)) name vs
           else compileTopBottom_loop c name vs)
      | _ \<Rightarrow> Inl (OnlyFieldsOrTagsAllowed name))"

definition compileTopBottom :: "compiledStatement \<Rightarrow> string \<Rightarrow> expr list \<Rightarrow> error + compiledStatement" where
  "compileTopBottom c name args =
     (if TopBottomFunction c \<noteq> [] then Inl (SelectorCannotBeCombined (TopBottomFunction c))
      else if length args < 2 then Inl (InvalidNumberOfArguments name)
      else case args ! (length args - 1) of
        IntegerLiteral limit \<Rightarrow>
          (if limit \<le> 0 then Inl (LimitMustBeAtLeastOne name limit)
           else if Limit_c c > 0 \<and> limit > Limit_c c
             then Inl (LimitLargerThanStatementLimit name limit (Limit_c c))
           else case args ! 0 of
             VarRef _ \<Rightarrow>
               (case (if length args > 2
                      then compileTopBottom_loop c name (take (length args - 2) (drop 1 args))
                      else Inr c) of
                  Inl e \<Rightarrow> Inl e
                | Inr c' \<Rightarrow> Inr (c'\<lparr>TopBottomFunction := name\<rparr>))
           | _ \<Rightarrow> Inl (ExpectedFirstArgumentField name))
      | _ \<Rightarrow> Inl (ExpectedIntegerLastArgument name))"

text \<open>
  The check of the optional second (duration) argument shared in shape by \<open>derivative\<close>
  and \<open>elapsed\<close>: \<open>None\<close> when the check passes.
\<close>

definition checkDurationArg :: "string \<Rightarrow> expr list \<Rightarrow> error option" where
  "checkDurationArg name args =
     (if length args = 2 then
        (case args ! 1 of
           DurationLiteral v \<Rightarrow> (if v \<le> 0 then Some (DurationMustBePositive v) else None)
         | _ \<Rightarrow> Some (SecondArgumentMustBeDuration name))
      else None)"

text \<open>
  \<open>compileExpr\<close> and the validators that call it back on a nested call. The statement
  and the \<open>AllowWildcard\<close> flag of the field are passed in and returned; an argument list
  is taken apart with \<open>case\<close> after its length has been checked, so its empty branch
  repeats the error of the length check.
\<close>

definition with_flag :: "bool \<Rightarrow> error + compiledStatement \<Rightarrow> error + compiledStatement \<times> bool" where
  "with_flag aw r = (case r of Inl e \<Rightarrow> Inl e | Inr c \<Rightarrow> Inr (c, aw))"

fun compileExpr :: "compiledStatement \<Rightarrow> bool \<Rightarrow> expr \<Rightarrow> error + compiledStatement \<times> bool"
and compileDerivative :: "compiledStatement \<Rightarrow> bool \<Rightarrow> expr list \<Rightarrow> bool \<Rightarrow> error + compiledStatement \<times> bool"
and compileElapsed :: "compiledStatement \<Rightarrow> bool \<Rightarrow> expr list \<Rightarrow> error + compiledStatement \<times> bool"
and compileDifference :: "compiledStatement \<Rightarrow> bool \<Rightarrow> expr list \<Rightarrow> bool \<Rightarrow> error + compiledStatement \<times> bool"
and compileCumulativeSum :: "compiledStatement \<Rightarrow> bool \<Rightarrow> expr list \<Rightarrow> error + compiledStatement \<times> bool"
and compileMovingAverage :: "compiledStatement \<Rightarrow> bool \<Rightarrow> expr list \<Rightarrow> error + compiledStatement \<times> bool"
and compileHoltWinters :: "compiledStatement \<Rightarrow> bool \<Rightarrow> expr list \<Rightarrow> bool \<Rightarrow> error + compiledStatement \<times> bool"
where
  "compileExpr c aw (VarRef v) = Inr (compileVarRef c, aw)"
| "compileExpr c aw Wildcard =
     (let c1 = c\<lparr>HasAuxiliaryFields := True\<rparr> in
      if \<not> aw then Inl WildcardInBinaryExpr else Inr (c1, aw))"
| "compileExpr c aw (RegexLiteral r) =
     (if \<not> aw then Inl RegexInBinaryExpr else Inr (c\<lparr>HasAuxiliaryFields := True\<rparr>, aw))"
| "compileExpr c aw (Call name args) =
     (let c1 = c\<lparr>FunctionCalls := FunctionCalls c @ [Call name args]\<rparr> in
      if name = ''percentile'' then with_flag aw (compilePercentile c1 aw args)
      else if name = ''sample'' then with_flag aw (compileSample c1 aw args)
      else if name = ''distinct'' then with_flag aw (compileDistinct c1 args)
      else if name = ''top'' \<or> name = ''bottom'' then with_flag aw (compileTopBottom c1 name args)
      else if name = ''derivative'' \<or> name = ''non_negative_derivative''
        then compileDerivative c1 aw args (name = ''non_negative_derivative'')
      else if name = ''difference'' \<or> name = ''non_negative_difference''
        then compileDifference c1 aw args (name = ''non_negative_difference'')
      else if name = ''cumulative_sum'' then compileCumulativeSum c1 aw args
      else if name = ''moving_average'' then compileMovingAverage c1 aw args
      else if name = ''elapsed'' then compileElapsed c1 aw args
      else if name = ''integral'' then with_flag aw (compileIntegral c1 aw args)
      else if name = ''holt_winters'' \<or> name = ''holt_winters_with_fit''
        then compileHoltWinters c1 aw args (name = ''holt_winters_with_fit'')
      else with_flag aw (compileFunction c1 aw name args))"
| "compileExpr c aw (Distinct v) =
     (case NewCall v of
        Call n a \<Rightarrow> with_flag aw (compileDistinct (c\<lparr>FunctionCalls := FunctionCalls c @ [Call n a]\<rparr>) a)
      | _ \<Rightarrow> Inl Unimplemented)"
| "compileExpr c aw (BinaryExpr op lhs rhs) =
     (if is_Literal lhs then
        (if is_Literal rhs then Inl BinaryOnTwoLiterals else compileExpr c False rhs)
      else if is_Literal rhs then compileExpr c False lhs
      else case compileExpr c False lhs of
        Inl e \<Rightarrow> Inl e
      | Inr (c1, aw1) \<Rightarrow> compileExpr c1 aw1 rhs)"
| "compileExpr c aw (ParenExpr e) = compileExpr c aw e"
| "compileExpr c aw _ = Inl Unimplemented"
| "compileDerivative c aw args isNonNegative =
     (let name = (if isNonNegative then ''non_negative_derivative'' else ''derivative'') in
      if length args > 2 \<or> length args < 1 then Inl (InvalidNumberOfArguments name)
      else case checkDurationArg name args of
        Some e \<Rightarrow> Inl e
      | None \<Rightarrow>
         (let c1 = c\<lparr>OnlySelectors := False\<rparr> in
          case args of
            [] \<Rightarrow> Inl (InvalidNumberOfArguments name)
          | arg0 # _ \<Rightarrow>
             (case arg0 of
                Call _ _ \<Rightarrow>
                  (if IsZero (Interval_c c1) then Inl (RequiresGroupByInterval name)
                   else compileExpr c1 aw arg0)
              | _ \<Rightarrow>
                  (if \<not> IsZero (Interval_c c1) then Inl (AggregateFunctionRequired name)
                   else with_flag aw (compileSymbol c1 aw name arg0)))))"
| "compileElapsed c aw args =
     (if length args > 2 \<or> length args < 1 then Inl (InvalidNumberOfArguments ''elapsed'')
      else case checkDurationArg ''elapsed'' args of
        Some e \<Rightarrow> Inl e
      | None \<Rightarrow>
         (let c1 = c\<lparr>OnlySelectors := False\<rparr> in
          case args of
            [] \<Rightarrow> Inl (InvalidNumberOfArguments ''elapsed'')
          | arg0 # _ \<Rightarrow>
             (case arg0 of
                Call _ _ \<Rightarrow>
                  (if IsZero (Interval_c c1) then Inl (RequiresGroupByInterval ''elapsed'')
                   else compileExpr c1 aw arg0)
              | _ \<Rightarrow>
                  (if \<not> IsZero (Interval_c c1) then Inl (AggregateFunctionRequired ''elapsed'')
                   else with_flag aw (compileSymbol c1 aw ''elapsed'' arg0)))))"
| "compileDifference c aw args isNonNegative =
     (let name = (if isNonNegative then ''non_negative_difference'' else ''difference'') in
      if length args \<noteq> 1 then Inl (InvalidNumberOfArguments name)
      else
         (let c1 = c\<lparr>OnlySelectors := False\<rparr> in
          case args of
            [] \<Rightarrow> Inl (InvalidNumberOfArguments name)
          | arg0 # _ \<Rightarrow>
             (case arg0 of
                Call _ _ \<Rightarrow>
                  (if IsZero (Interval_c c1) then Inl (RequiresGroupByInterval name)
                   else compileExpr c1 aw arg0)
              | _ \<Rightarrow>
                  (if \<not> IsZero (Interval_c c1) then Inl (AggregateFunctionRequired name)
                   else with_flag aw (compileSymbol c1 aw name arg0)))))"
| "compileCumulativeSum c aw args =
     (if length args \<noteq> 1 then Inl (InvalidNumberOfArguments ''cumulative_sum'')
      else
         (let c1 = c\<lparr>OnlySelectors := False\<rparr> in
          case args of
            [] \<Rightarrow> Inl (InvalidNumberOfArguments ''cumulative_sum'')
          | arg0 # _ \<Rightarrow>
             (case arg0 of
                Call _ _ \<Rightarrow>
                  (if IsZero (Interval_c c1) then Inl (RequiresGroupByInterval ''cumulative_sum'')
                   else compileExpr c1 aw arg0)
              | _ \<Rightarrow>
                  (if \<not> IsZero (Interval_c c1) then Inl (AggregateFunctionRequired ''cumulative_sum'')
                   else with_flag aw (compileSymbol c1 aw ''cumulative_sum'' arg0)))))"
| "compileMovingAverage c aw args =
     (if length args \<noteq> 2 then Inl (InvalidNumberOfArguments ''moving_average'')
      else case (case args ! 1 of
                   IntegerLiteral v \<Rightarrow> (if v \<le> 1 then Some (MovingAverageWindowTooSmall v) else None)
                 | _ \<Rightarrow> Some (SecondArgumentMustBeInteger ''moving_average'')) of
        Some e \<Rightarrow> Inl e
      | None \<Rightarrow>
         (let c1 = c\<lparr>OnlySelectors := False\<rparr> in
          case args of
            [] \<Rightarrow> Inl (InvalidNumberOfArguments ''moving_average'')
          | arg0 # _ \<Rightarrow>
             (case arg0 of
                Call _ _ \<Rightarrow>
                  (if IsZero (Interval_c c1) then Inl (RequiresGroupByInterval ''moving_average'')
                   else compileExpr c1 aw arg0)
              | _ \<Rightarrow>
                  (if \<not> IsZero (Interval_c c1) then Inl (AggregateFunctionRequired ''moving_average'')
                   else with_flag aw (compileSymbol c1 aw ''moving_average'' arg0)))))"
| "compileHoltWinters c aw args withFit =
     (let name = (if withFit then ''holt_winters_with_fit'' else ''holt_winters'') in
      if length args \<noteq> 3 then Inl (InvalidNumberOfArguments name)
      else case (case args ! 1 of
                   IntegerLiteral n \<Rightarrow> (if n \<le> 0 then Some (HoltWintersSecondArgTooSmall name) else None)
                 | _ \<Rightarrow> Some (HoltWintersSecondArgNotInteger name)) of
        Some e \<Rightarrow> Inl e
      | None \<Rightarrow>
         (case (case args ! 2 of
                  IntegerLiteral s \<Rightarrow> (if s < 0 then Some (HoltWintersThirdArgNegative name) else None)
                | _ \<Rightarrow> Some (HoltWintersThirdArgNotInteger name)) of
            Some e \<Rightarrow> Inl e
          | None \<Rightarrow>
             (let c1 = c\<lparr>OnlySelectors := False\<rparr> in
              case args of
                [] \<Rightarrow> Inl (InvalidNumberOfArguments name)
              | arg0 # _ \<Rightarrow>
                 (case arg0 of
                    Call _ _ \<Rightarrow>
                      (if IsZero (Interval_c c1) then Inl (RequiresGroupByInterval name)
                       else compileExpr c1 aw arg0)
                  | _ \<Rightarrow> Inl (MustUseAggregateFunction name)))))"

section \<open>Fields of a statement and their validation\<close>

definition is_time_field :: "field \<Rightarrow> bool" where
  "is_time_field f = (case Expr f of VarRef v \<Rightarrow> v = ''time'' | _ \<Rightarrow> False)"

fun compileFields_loop :: "compiledStatement \<Rightarrow> field list \<Rightarrow> error + compiledStatement" where
  "compileFields_loop c [] = Inr c"
| "compileFields_loop c (f # fs) =
     (if is_time_field f then
        compileFields_loop (if Alias f \<noteq> [] then c\<lparr>TimeFieldName := Alias f\<rparr> else c) fs
      else case compileExpr (c\<lparr>Fields_c := Fields_c c @ [f]\<rparr>) True (Expr f) of
        Inl e \<Rightarrow> Inl e
      | Inr (c', _) \<Rightarrow> compileFields_loop c' fs)"

definition compileFields :: "compiledStatement \<Rightarrow> select_statement \<Rightarrow> error + compiledStatement" where
  "compileFields c stmt = compileFields_loop (c\<lparr>Fields_c := []\<rparr>) (Fields stmt)"

text \<open>\<open>validateFields\<close> returns the error, or \<open>None\<close> for Go's \<open>nil\<close>.\<close>

definition validateFields :: "compiledStatement \<Rightarrow> error option" where
  "validateFields c =
     (if length (Fields_c c) = 0 then Some AtLeastOneNonTimeField
      else if length (FunctionCalls c) > 1 \<and> TopBottomFunction c \<noteq> []
        then Some (SelectorCannotBeCombined (TopBottomFunction c))
      else if length (FunctionCalls c) = 0 \<and> FillOption_c c = NoFill
        then Some FillNoneWithoutFunction
      else if length (FunctionCalls c) = 0 \<and> FillOption_c c = LinearFill
        then Some FillLinearWithoutFunction
      else if length (FunctionCalls c) = 0 \<and> \<not> IsZero (Interval_c c) \<and> \<not> InheritedInterval c
        then Some GroupByRequiresAggregate
      else if HasDistinct c \<and> (length (FunctionCalls c) \<noteq> 1 \<or> HasAuxiliaryFields c)
        then Some DistinctCannotBeCombined
      else if HasAuxiliaryFields c \<and> \<not> OnlySelectors c
        then Some MixingAggregateAndNonAggregate
      else if HasAuxiliaryFields c \<and> length (FunctionCalls c) > 1
        then Some MixingMultipleSelectors
      else None)"

section \<open>Subqueries\<close>

text \<open>
  The part of \<open>subquery\<close> before the recursive \<open>compile\<close>: the compiled statement of the
  subquery as it stands when its fields are about to be compiled. The reduction of the
  subquery's condition rewrites the syntax tree only and is not read again by \<open>compile\<close>.
\<close>

definition subquery_prepare :: "externals \<Rightarrow> compiledStatement \<Rightarrow> select_statement \<Rightarrow> error + compiledStatement" where
  "subquery_prepare ext c stmt =
     (case preprocess ext (newCompiler ext (Options c)) stmt of
        Inl e \<Rightarrow> Inl e
      | Inr sq \<Rightarrow>
         (if length (SortFields stmt) \<noteq> 0 \<and> Ascending sq \<noteq> Ascending c
            then Inl SubqueryOrderMismatch
          else
            (let sq1 = sq\<lparr>Ascending := Ascending c\<rparr>;
                 sq2 = sq1\<lparr>TimeRange_c := Intersect (TimeRange_c sq1) (TimeRange_c c)\<rparr>;
                 sq3 = (if \<not> IsZero (Interval_c sq2) \<and> FillOption_c sq2 = NullFill
                        then sq2\<lparr>FillOption_c := NoFill\<rparr> else sq2);
                 sq4 = (if \<not> IsZero (Interval_c c) \<and> IsZero (Interval_c sq3)
                        then sq3\<lparr>Interval_c := Interval_c c, InheritedInterval := True\<rparr>
                        else sq3)
             in Inr sq4)))"

text \<open>
  \<open>compile\<close> returns the statement after its fields are compiled and validated;
  \<open>subquery\<close> returns only the error, as the source discards the compiled subquery.
\<close>

fun compile :: "externals \<Rightarrow> compiledStatement \<Rightarrow> select_statement \<Rightarrow> error + compiledStatement"
and compile_sources :: "externals \<Rightarrow> compiledStatement \<Rightarrow> source list \<Rightarrow> error option"
and subquery :: "externals \<Rightarrow> compiledStatement \<Rightarrow> select_statement \<Rightarrow> error option"
where
  "compile ext c (SelectStatement fs ds srcs cnd sfs lmt fl tgt raw) =
     (case compileFields c (SelectStatement fs ds srcs cnd sfs lmt fl tgt raw) of
        Inl e \<Rightarrow> Inl e
      | Inr c1 \<Rightarrow>
         (case validateFields c1 of
            Some e \<Rightarrow> Inl e
          | None \<Rightarrow>
             (case compile_sources ext c1 srcs of
                Some e \<Rightarrow> Inl e
              | None \<Rightarrow> Inr c1)))"
| "compile_sources ext c [] = None"
| "compile_sources ext c (Measurement m # rest) = compile_sources ext c rest"
| "compile_sources ext c (SubQuery s # rest) =
     (case subquery ext c s of
        Some e \<Rightarrow> Some e
      | None \<Rightarrow> compile_sources ext c rest)"
| "subquery ext c (SelectStatement fs ds srcs cnd sfs lmt fl tgt raw) =
     (case subquery_prepare ext c (SelectStatement fs ds srcs cnd sfs lmt fl tgt raw) of
        Inl e \<Rightarrow> Some e
      | Inr sq \<Rightarrow>
         (case compile ext sq (SelectStatement fs ds srcs cnd sfs lmt fl tgt raw) of
            Inl e \<Rightarrow> Some e
          | Inr _ \<Rightarrow> None))"

text \<open>
  \<open>Compile\<close> up to the compiled statement; the rewrites of the cloned syntax tree that
  follow are done by \<open>influxql\<close>.
\<close>

definition Compile :: "externals \<Rightarrow> select_statement \<Rightarrow> CompileOptions \<Rightarrow> error + compiledStatement" where
  "Compile ext stmt opt =
     (case preprocess ext (newCompiler ext opt) stmt of
        Inl e \<Rightarrow> Inl e
      | Inr c \<Rightarrow> compile ext c stmt)"

section \<open>Planning\<close>

record SelectOptions =
  MaxBucketsN :: int

record IteratorOptions =
  Interval_o :: Interval
  StartTime :: int
  EndTime :: int
  Ascending_o :: bool

text \<open>
  Modelled from the spec: \<open>IteratorOptions.Window\<close> (declared outside compile.go), the
  "bucket index" operation "mapping an absolute timestamp to the start of its containing
  window". The windows of an interval of duration \<open>d\<close> and offset \<open>o\<close> are
  \<open>[k * d + o, (k + 1) * d + o)\<close>; with no grouping the whole range is one window.
\<close>

definition Window :: "IteratorOptions \<Rightarrow> int \<Rightarrow> int \<times> int" where
  "Window opt t =
     (if IsZero (Interval_o opt) then (StartTime opt, EndTime opt + 1)
      else let d = Duration (Interval_o opt); off = Offset (Interval_o opt);
               start = t - (t - off) mod d
           in (start, start + d))"

text \<open>
  The collaborators of \<open>Prepare\<close>, taken as parameters: the shard mapper, the
  statement's own \<open>GroupByInterval\<close>, \<open>GroupByOffset\<close>, \<open>RewriteFields\<close> and
  \<open>ColumnNames\<close>, the constructor of the iterator options, and the window operation.
\<close>

record 'sh planner =
  GroupByInterval :: "select_statement \<Rightarrow> error + int"
  GroupByOffset :: "select_statement \<Rightarrow> error + int"
  WindowOp :: "IteratorOptions \<Rightarrow> int \<Rightarrow> int \<times> int"
  MapShards :: "source list \<Rightarrow> TimeRange \<Rightarrow> SelectOptions \<Rightarrow> error + 'sh"
  RewriteFields :: "select_statement \<Rightarrow> 'sh \<Rightarrow> error + select_statement"
  newIteratorOptionsStmt :: "select_statement \<Rightarrow> SelectOptions \<Rightarrow> error + IteratorOptions"
  ColumnNames :: "select_statement \<Rightarrow> string list"

record 'sh preparedStatement =
  stmt_p :: select_statement
  opt_p :: IteratorOptions
  ic_p :: 'sh
  columns_p :: "string list"

text \<open>
  The effects of \<open>Prepare\<close> on the shard mapper, in order: the call of \<open>MapShards\<close> with
  the time range handed over, and the release of the shard set.
\<close>

datatype 'sh effect = MapShardsCalled TimeRange | Closed 'sh

text \<open>
  The time range handed to the shard mapper (lines 794 to 825 of compile.go): \<open>c\<close> is the
  compiled statement and \<open>cstmt\<close> its statement \<open>c.stmt\<close>.
\<close>

definition shardTimeRange :: "'sh planner \<Rightarrow> compiledStatement \<Rightarrow> select_statement \<Rightarrow> SelectOptions \<Rightarrow> error + TimeRange" where
  "shardTimeRange pl c cstmt sopt =
     (let timeRange = TimeRange_c c in
      if MaxBucketsN sopt > 0 \<and> \<not> IsRawQuery cstmt \<and> MinTime_of timeRange = MinTime then
        (case GroupByInterval pl cstmt of
           Inl e \<Rightarrow> Inl e
         | Inr interval \<Rightarrow>
            (case GroupByOffset pl cstmt of
               Inl e \<Rightarrow> Inl e
             | Inr offset \<Rightarrow>
                (if interval > 0 then
                   (let opt = \<lparr>Interval_o = \<lparr>Duration = interval, Offset = offset\<rparr>,
                               StartTime = 0, EndTime = 0, Ascending_o = False\<rparr>;
                        last = fst (WindowOp pl opt (wrap64 (MaxTime_of (TimeRange_c c) - 1)));
                        maxDiff = wrap64 (last - MinNanoTime)
                    in if go_div maxDiff interval > MaxBucketsN sopt
                       then Inr (timeRange\<lparr>Min_f := Unix_nano MinNanoTime\<rparr>)
                       else Inr (timeRange\<lparr>Min_f :=
                              Unix_nano (wrap64 (last - wrap64 (interval * wrap64 (MaxBucketsN sopt - 1))))\<rparr>))
                 else Inr timeRange)))
      else Inr timeRange)"

text \<open>
  The bucket check after the mapping (lines 849 to 868): the error to return, if any.
\<close>

definition bucketCheck :: "'sh planner \<Rightarrow> compiledStatement \<Rightarrow> select_statement \<Rightarrow> IteratorOptions \<Rightarrow> SelectOptions \<Rightarrow> error option" where
  "bucketCheck pl c stmt opt sopt =
     (if MaxBucketsN sopt > 0 \<and> \<not> IsRawQuery stmt \<and> MinTime_of (TimeRange_c c) > MinTime then
        (case GroupByInterval pl stmt of
           Inl e \<Rightarrow> Some e
         | Inr interval \<Rightarrow>
            (if interval > 0 then
               (let first = fst (WindowOp pl opt (StartTime opt));
                    last = fst (WindowOp pl opt (wrap64 (EndTime opt - 1)));
                    buckets = go_div (wrap64 (wrap64 (last - first) + interval)) interval
                in if buckets > MaxBucketsN sopt
                   then Some (MaxSelectBucketsExceeded buckets (MaxBucketsN sopt))
                   else None)
             else None))
      else None)"

definition Prepare :: "'sh planner \<Rightarrow> compiledStatement \<Rightarrow> select_statement \<Rightarrow> SelectOptions \<Rightarrow> 'sh effect list \<times> (error + 'sh preparedStatement)" where
  "Prepare pl c cstmt sopt =
     (case shardTimeRange pl c cstmt sopt of
        Inl e \<Rightarrow> ([], Inl e)
      | Inr timeRange \<Rightarrow>
         (case MapShards pl (Sources cstmt) timeRange sopt of
            Inl e \<Rightarrow> ([MapShardsCalled timeRange], Inl e)
          | Inr shards \<Rightarrow>
             (case RewriteFields pl cstmt shards of
                Inl e \<Rightarrow> ([MapShardsCalled timeRange, Closed shards], Inl e)
              | Inr stmt \<Rightarrow>
                 (case newIteratorOptionsStmt pl stmt sopt of
                    Inl e \<Rightarrow> ([MapShardsCalled timeRange, Closed shards], Inl e)
                  | Inr opt0 \<Rightarrow>
                     (let opt = opt0\<lparr>StartTime := MinTime_of (TimeRange_c c),
                                     EndTime := MaxTime_of (TimeRange_c c),
                                     Ascending_o := Ascending c\<rparr>
                      in case bucketCheck pl c stmt opt sopt of
                           Some e \<Rightarrow> ([MapShardsCalled timeRange, Closed shards], Inl e)
                         | None \<Rightarrow>
                             ([MapShardsCalled timeRange],
                              Inr \<lparr>stmt_p = stmt, opt_p = opt, ic_p = shards,
                                   columns_p = ColumnNames pl stmt\<rparr>))))))"

section \<open>Example inputs\<close>

text \<open>
  The lower-casing of the examples: on the strings of the examples, which hold ASCII
  characters only, \<open>strings.ToLower\<close> maps the letters \<open>A\<close> to \<open>Z\<close> to \<open>a\<close> to \<open>z\<close> and
  leaves every other character alone.
\<close>

definition to_lower_char :: "char \<Rightarrow> char" where
  "to_lower_char ch =
     (let n = of_char ch :: nat in if 65 \<le> n \<and> n \<le> 90 then char_of (n + 32) else ch)"

definition ascii_lower :: "string \<Rightarrow> string" where
  "ascii_lower s = map to_lower_char s"

text \<open>
  Collaborators for the examples: a condition resolver that finds the time range \<open>t\<close>
  and leaves no other condition, a string literal parser that accepts nothing, and the
  lower-casing of ASCII strings.
\<close>

definition ext_example :: "TimeRange \<Rightarrow> externals" where
  "ext_example t =
     \<lparr> wall_clock = 1500000000000000000,
       ConditionExpr = (\<lambda>cond now. Inr (None, t)),
       IsTimeLiteral = (\<lambda>s. False),
       ToTimeLiteral = (\<lambda>s. Inl (ExternalError ''invalid time literal'')),
       ToLower = ascii_lower \<rparr>"

text \<open>
  Example 1 of the specification:
  \<open>SELECT mean(value) FROM cpu WHERE time > now() - 1h GROUP BY time(10m)\<close>,
  compiled at the instant 1500000000000000000.
\<close>

definition example1_range :: TimeRange where
  "example1_range = \<lparr>Min_f = 1499996400000000001, Max_f = zero_time\<rparr>"

definition example1_stmt :: select_statement where
  "example1_stmt =
     SelectStatement [\<lparr>Expr = Call ''mean'' [VarRef ''value''], Alias = []\<rparr>]
       [Call ''time'' [DurationLiteral 600000000000]] [Measurement ''cpu'']
       (Some (BinaryExpr ''>'' (VarRef ''time'')
          (BinaryExpr ''-'' (Call ''now'' []) (DurationLiteral 3600000000000))))
       [] 0 NullFill None False"

definition example1_preprocessed :: compiledStatement where
  "example1_preprocessed =
     \<lparr> Condition_c = None,
       TimeRange_c = \<lparr>Min_f = 1499996400000000001, Max_f = 1500000000000000000\<rparr>,
       Interval_c = \<lparr>Duration = 600000000000, Offset = 0\<rparr>,
       InheritedInterval = False, Ascending = True, FunctionCalls = [],
       OnlySelectors = True, HasDistinct = False, FillOption_c = NullFill,
       TopBottomFunction = [], HasAuxiliaryFields = False, Fields_c = [],
       TimeFieldName = ''time'', Limit_c = 0, HasTarget = False,
       Options = \<lparr>Now = 1500000000000000000\<rparr> \<rparr>"

text \<open>
  Subqueries of the examples: \<open>SELECT value FROM cpu\<close> and
  \<open>SELECT mean(value) FROM cpu GROUP BY time(1m)\<close>, neither with a time condition.
\<close>

definition no_range :: TimeRange where
  "no_range = \<lparr>Min_f = zero_time, Max_f = zero_time\<rparr>"

definition example_sub_raw :: select_statement where
  "example_sub_raw =
     SelectStatement [\<lparr>Expr = VarRef ''value'', Alias = []\<rparr>] [] [Measurement ''cpu'']
       None [] 0 NullFill None True"

definition example_sub_grouped :: select_statement where
  "example_sub_grouped =
     SelectStatement [\<lparr>Expr = Call ''mean'' [VarRef ''value''], Alias = []\<rparr>]
       [Call ''time'' [DurationLiteral 60000000000]] [Measurement ''cpu'']
       None [] 0 NullFill None False"

text \<open>Readers of single attributes of a result, for the examples.\<close>

definition result_fill :: "error + compiledStatement \<Rightarrow> FillOption option" where
  "result_fill r = (case r of Inl _ \<Rightarrow> None | Inr s \<Rightarrow> Some (FillOption_c s))"

definition result_interval :: "error + compiledStatement \<Rightarrow> Interval option" where
  "result_interval r = (case r of Inl _ \<Rightarrow> None | Inr s \<Rightarrow> Some (Interval_c s))"

definition result_range :: "error + compiledStatement \<Rightarrow> TimeRange option" where
  "result_range r = (case r of Inl _ \<Rightarrow> None | Inr s \<Rightarrow> Some (TimeRange_c s))"

text \<open>
  Collaborators of \<open>Prepare\<close> for the examples: a statement grouped by
  \<open>time(interval, offset)\<close>, a shard mapper that returns the shard set \<open>0\<close>, and a field
  rewriter that finds nothing to rewrite.
\<close>

definition planner_example :: "int \<Rightarrow> int \<Rightarrow> nat planner" where
  "planner_example interval offset =
     \<lparr> GroupByInterval = (\<lambda>s. Inr interval),
       GroupByOffset = (\<lambda>s. Inr offset),
       WindowOp = Window,
       MapShards = (\<lambda>srcs tr sopt. Inr 0),
       RewriteFields = (\<lambda>s sh. Inr s),
       newIteratorOptionsStmt = (\<lambda>s sopt. Inr \<lparr>Interval_o = \<lparr>Duration = interval, Offset = offset\<rparr>,
                                                  StartTime = 0, EndTime = 0, Ascending_o = False\<rparr>),
       ColumnNames = (\<lambda>s. [''time'', ''mean'']) \<rparr>"

text \<open>
  \<open>SELECT mean(value) FROM cpu WHERE time < '1960-01-01T00:00:00Z' GROUP BY time(10m)\<close>
  after compilation: no lower bound, the upper bound one nanosecond before 1960.
\<close>

definition example_before_epoch :: compiledStatement where
  "example_before_epoch =
     \<lparr> Condition_c = None,
       TimeRange_c = \<lparr>Min_f = - 9223372036854775806, Max_f = - 315619200000000001\<rparr>,
       Interval_c = \<lparr>Duration = 600000000000, Offset = 0\<rparr>,
       InheritedInterval = False, Ascending = True,
       FunctionCalls = [Call ''mean'' [VarRef ''value'']],
       OnlySelectors = False, HasDistinct = False, FillOption_c = NullFill,
       TopBottomFunction = [], HasAuxiliaryFields = False,
       Fields_c = [\<lparr>Expr = Call ''mean'' [VarRef ''value''], Alias = []\<rparr>],
       TimeFieldName = ''time'', Limit_c = 0, HasTarget = False,
       Options = \<lparr>Now = 1500000000000000000\<rparr> \<rparr>"

text \<open>
  \<open>SELECT mean(value) FROM cpu WHERE time >= '1700-01-01T00:00:00Z' AND
  time < '2020-01-01T00:00:00Z' GROUP BY time(1h)\<close> after compilation.
\<close>

definition example_wide :: compiledStatement where
  "example_wide =
     \<lparr> Condition_c = None,
       TimeRange_c = \<lparr>Min_f = - 8520336000000000000, Max_f = 1577836799999999999\<rparr>,
       Interval_c = \<lparr>Duration = 3600000000000, Offset = 0\<rparr>,
       InheritedInterval = False, Ascending = True,
       FunctionCalls = [Call ''mean'' [VarRef ''value'']],
       OnlySelectors = False, HasDistinct = False, FillOption_c = NullFill,
       TopBottomFunction = [], HasAuxiliaryFields = False,
       Fields_c = [\<lparr>Expr = Call ''mean'' [VarRef ''value''], Alias = []\<rparr>],
       TimeFieldName = ''time'', Limit_c = 0, HasTarget = False,
       Options = \<lparr>Now = 1500000000000000000\<rparr> \<rparr>"

definition example_grouped_stmt :: "int \<Rightarrow> select_statement" where
  "example_grouped_stmt d =
     SelectStatement [\<lparr>Expr = Call ''mean'' [VarRef ''value''], Alias = []\<rparr>]
       [Call ''time'' [DurationLiteral d]] [Measurement ''cpu''] None [] 0 NullFill None False"

section \<open>Notions used to state the properties\<close>

text \<open>
  The instants of a time range: a bound that is the zero time is absent and excludes
  nothing.
\<close>

definition in_range :: "TimeRange \<Rightarrow> gotime \<Rightarrow> bool" where
  "in_range r t =
     ((IsZero_time (Min_f r) \<or> Min_f r \<le> t) \<and> (IsZero_time (Max_f r) \<or> t \<le> Max_f r))"

definition isCall :: "expr \<Rightarrow> bool" where
  "isCall e = (case e of Call _ _ \<Rightarrow> True | _ \<Rightarrow> False)"

text \<open>The name under which \<open>compileDerivative\<close> reports its errors.\<close>

definition derivative_name :: "bool \<Rightarrow> string" where
  "derivative_name isNonNegative =
     (if isNonNegative then ''non_negative_derivative'' else ''derivative'')"

text \<open>
  The duration of a dimension that is a call of \<open>time\<close> with one or two arguments, the
  first a duration literal; \<open>None\<close> for any other dimension.
\<close>

definition time_call_duration :: "expr \<Rightarrow> int option" where
  "time_call_duration d =
     (case d of
        Call n args \<Rightarrow>
          (if n = ''time'' \<and> (length args = 1 \<or> length args = 2)
           then (case args ! 0 of DurationLiteral v \<Rightarrow> Some v | _ \<Rightarrow> None)
           else None)
      | _ \<Rightarrow> None)"

text \<open>The dimensions that can pass \<open>compileDimensions\<close>.\<close>

definition dimension_ok :: "externals \<Rightarrow> expr \<Rightarrow> bool" where
  "dimension_ok ext d =
     (case d of
        VarRef v \<Rightarrow> ToLower ext v \<noteq> ''time''
      | Call _ _ \<Rightarrow> time_call_duration d \<noteq> None
      | Wildcard \<Rightarrow> True
      | RegexLiteral _ \<Rightarrow> True
      | _ \<Rightarrow> False)"

text \<open>A dimension that records a non-zero interval duration.\<close>

definition declares_interval :: "expr \<Rightarrow> bool" where
  "declares_interval d = (case time_call_duration d of Some v \<Rightarrow> v \<noteq> 0 | None \<Rightarrow> False)"

text \<open>
  The number of grouping windows that meet the time range from \<open>lo\<close> to \<open>hi\<close>
  (inclusive), counted in unbounded integers: the windows from the one that holds \<open>lo\<close>
  to the one that holds \<open>hi\<close>.
\<close>

definition windows_between :: "Interval \<Rightarrow> int \<Rightarrow> int \<Rightarrow> int" where
  "windows_between i lo hi =
     (let d = Duration i; off = Offset i;
          first = lo - (lo - off) mod d;
          last = hi - (hi - off) mod d
      in (last - first) div d + 1)"

text \<open>
  The expressions that the validators accept where they expect a field or a constant:
  a reference, a wildcard, a regular expression, or an integer, number or duration
  literal. None of them is or contains a call.
\<close>

fun plain :: "expr \<Rightarrow> bool" where
  "plain (VarRef _) = True"
| "plain Wildcard = True"
| "plain (RegexLiteral _) = True"
| "plain (IntegerLiteral _) = True"
| "plain (NumberLiteral _) = True"
| "plain (DurationLiteral _) = True"
| "plain _ = False"

text \<open>
  The argument list of \<open>count(distinct(x))\<close>, with \<open>distinct\<close> written as a call or in the
  syntax form \<open>DISTINCT x\<close>.
\<close>

fun count_distinct_arg :: "expr list \<Rightarrow> bool" where
  "count_distinct_arg [Call n _] = (n = ''distinct'')"
| "count_distinct_arg [Distinct _] = True"
| "count_distinct_arg _ = False"

text \<open>
  The function calls of a selected expression, in the order of the text: every call
  that the expression contains, the syntax form \<open>DISTINCT x\<close> as the call \<open>distinct(x)\<close>,
  and \<open>count(distinct(x))\<close> as the one call \<open>count\<close>.
\<close>

fun calls_of :: "expr \<Rightarrow> expr list" where
  "calls_of (Call n args) =
     (if n = ''count'' \<and> count_distinct_arg args then [Call n args]
      else Call n args # concat (map calls_of args))"
| "calls_of (Distinct v) = [NewCall v]"
| "calls_of (BinaryExpr _ l r) = calls_of l @ calls_of r"
| "calls_of (ParenExpr e) = calls_of e"
| "calls_of _ = []"

text \<open>An expression that uses \<open>distinct\<close>, in any of its three forms.\<close>

fun uses_distinct :: "expr \<Rightarrow> bool" where
  "uses_distinct (Call n args) = (n = ''distinct'' \<or> (\<exists>a \<in> set args. uses_distinct a))"
| "uses_distinct (Distinct _) = True"
| "uses_distinct (BinaryExpr _ l r) = (uses_distinct l \<or> uses_distinct r)"
| "uses_distinct (ParenExpr e) = uses_distinct e"
| "uses_distinct _ = False"

text \<open>An expression that contains a call of \<open>top\<close> or \<open>bottom\<close>.\<close>

fun uses_top_bottom :: "expr \<Rightarrow> bool" where
  "uses_top_bottom (Call n args) =
     (n = ''top'' \<or> n = ''bottom'' \<or> (\<exists>a \<in> set args. uses_top_bottom a))"
| "uses_top_bottom (BinaryExpr _ l r) = (uses_top_bottom l \<or> uses_top_bottom r)"
| "uses_top_bottom (ParenExpr e) = uses_top_bottom e"
| "uses_top_bottom _ = False"

text \<open>
  An expression that brings an auxiliary field: a bare reference, a wildcard or a
  regular expression, selected as it is, in parentheses or as an operand of a binary
  expression that is not taken for a literal (a regular expression is a literal); a
  \<open>top\<close> or \<open>bottom\<close> call with tags or fields between its first and its last argument,
  in a statement without an INTO target (\<open>ht\<close> false); or a call that has such a call as
  an argument.
\<close>

fun aux_of :: "bool \<Rightarrow> expr \<Rightarrow> bool" where
  "aux_of ht (VarRef _) = True"
| "aux_of ht Wildcard = True"
| "aux_of ht (RegexLiteral _) = True"
| "aux_of ht (Call n args) =
     (((n = ''top'' \<or> n = ''bottom'') \<and> \<not> ht \<and> 2 < length args)
      \<or> (\<exists>a \<in> set args. (case a of Call _ _ \<Rightarrow> aux_of ht a | _ \<Rightarrow> False)))"
| "aux_of ht (BinaryExpr _ l r) =
     ((\<not> is_Literal l \<and> aux_of ht l) \<or> (\<not> is_Literal r \<and> aux_of ht r))"
| "aux_of ht (ParenExpr e) = aux_of ht e"
| "aux_of ht _ = False"

text \<open>
  The compiled fields that an expression adds after its own: the tags and fields
  between the first and the last argument of a \<open>top\<close> or \<open>bottom\<close> call, in a statement
  without an INTO target.
\<close>

fun extra_fields :: "bool \<Rightarrow> expr \<Rightarrow> field list" where
  "extra_fields ht (Call n args) =
     (if n = ''top'' \<or> n = ''bottom'' then
        (if ht then []
         else map (\<lambda>a. \<lparr>Expr = a, Alias = []\<rparr>) (take (length args - 2) (drop 1 args)))
      else concat (map (extra_fields ht) args))"
| "extra_fields ht (BinaryExpr _ l r) = extra_fields ht l @ extra_fields ht r"
| "extra_fields ht (ParenExpr e) = extra_fields ht e"
| "extra_fields ht _ = []"

text \<open>
  What the claims require of a \<open>top\<close> or \<open>bottom\<close> call under the row limit \<open>l\<close>: at
  least two arguments, the last a positive integer literal that is not larger than a
  positive row limit.
\<close>

definition top_bottom_args_ok :: "int \<Rightarrow> expr \<Rightarrow> bool" where
  "top_bottom_args_ok l e =
     (case e of
        Call n args \<Rightarrow>
          (if n = ''top'' \<or> n = ''bottom'' then
             2 \<le> length args
             \<and> (case args ! (length args - 1) of
                  IntegerLiteral k \<Rightarrow> 0 < k \<and> (if 0 < l then k \<le> l else True)
                | _ \<Rightarrow> False)
           else True)
      | _ \<Rightarrow> True)"

text \<open>
  The fields of the statement that the compiler knows and that the compilation of an
  expression leaves alone: the name of the time column, the INTO flag and the row limit.
\<close>

definition frame :: "compiledStatement \<Rightarrow> compiledStatement \<Rightarrow> bool" where
  "frame c c' =
     (TimeFieldName c' = TimeFieldName c \<and> HasTarget c' = HasTarget c \<and> Limit_c c' = Limit_c c)"

text \<open>
  A step that changes nothing of what the validation of the fields reads, except
  perhaps \<open>OnlySelectors\<close>.
\<close>

definition keeps :: "compiledStatement \<Rightarrow> compiledStatement \<Rightarrow> bool" where
  "keeps c c' =
     (frame c c' \<and> FunctionCalls c' = FunctionCalls c \<and> HasDistinct c' = HasDistinct c
      \<and> HasAuxiliaryFields c' = HasAuxiliaryFields c \<and> Fields_c c' = Fields_c c
      \<and> TopBottomFunction c' = TopBottomFunction c)"

text \<open>
  What the compilation of the expression \<open>e\<close> does to the statement, in terms of the
  text of \<open>e\<close>: the calls of \<open>e\<close> are registered in order, \<open>HasDistinct\<close> and
  \<open>HasAuxiliaryFields\<close> are set when \<open>e\<close> uses \<open>distinct\<close> or brings an auxiliary field,
  the extra fields of \<open>e\<close> are appended, the top/bottom marker is set, from empty, when \<open>e\<close>
  calls \<open>top\<close> or \<open>bottom\<close> and left alone otherwise, and every \<open>top\<close> or \<open>bottom\<close> call of
  \<open>e\<close> has passed the checks of its arguments.
\<close>

definition effect :: "compiledStatement \<Rightarrow> expr \<Rightarrow> compiledStatement \<Rightarrow> bool" where
  "effect c e c' =
     (frame c c'
      \<and> FunctionCalls c' = FunctionCalls c @ calls_of e
      \<and> HasDistinct c' = (HasDistinct c \<or> uses_distinct e)
      \<and> HasAuxiliaryFields c' = (HasAuxiliaryFields c \<or> aux_of (HasTarget c) e)
      \<and> Fields_c c' = Fields_c c @ extra_fields (HasTarget c) e
      \<and> (if uses_top_bottom e then TopBottomFunction c = [] \<and> TopBottomFunction c' \<noteq> []
          else TopBottomFunction c' = TopBottomFunction c)
      \<and> list_all (top_bottom_args_ok (Limit_c c)) (calls_of e))"

text \<open>
  The selected fields of a statement that are compiled: all but the bare references
  named \<open>time\<close>. With them, the function calls of the selected fields, whether a selected
  field uses \<open>distinct\<close>, calls \<open>top\<close> or \<open>bottom\<close> or brings an auxiliary field, and the
  field list that the statement compiles to.
\<close>

definition selected :: "select_statement \<Rightarrow> field list" where
  "selected stmt = filter (\<lambda>f. \<not> is_time_field f) (Fields stmt)"

definition selected_calls :: "select_statement \<Rightarrow> expr list" where
  "selected_calls stmt = concat (map (\<lambda>f. calls_of (Expr f)) (selected stmt))"

definition selects_distinct :: "select_statement \<Rightarrow> bool" where
  "selects_distinct stmt = list_ex (\<lambda>f. uses_distinct (Expr f)) (selected stmt)"

definition selects_top_bottom :: "select_statement \<Rightarrow> bool" where
  "selects_top_bottom stmt = list_ex (\<lambda>f. uses_top_bottom (Expr f)) (selected stmt)"

definition selects_auxiliary :: "bool \<Rightarrow> select_statement \<Rightarrow> bool" where
  "selects_auxiliary ht stmt = list_ex (\<lambda>f. aux_of ht (Expr f)) (selected stmt)"

definition selected_fields :: "bool \<Rightarrow> select_statement \<Rightarrow> field list" where
  "selected_fields ht stmt = concat (map (\<lambda>f. f # extra_fields ht (Expr f)) (selected stmt))"

text \<open>
  The display name of the time column after the selected fields \<open>fs\<close>: the alias of the
  last selected \<open>time\<close> that has one, and \<open>n\<close> if there is none.
\<close>

definition time_field_name :: "string \<Rightarrow> field list \<Rightarrow> string" where
  "time_field_name n fs =
     (case filter (\<lambda>f. is_time_field f \<and> Alias f \<noteq> []) fs of
        [] \<Rightarrow> n
      | g # gs \<Rightarrow> Alias (last (g # gs)))"

text \<open>
  A statement before its fields are compiled, as \<open>newCompiler\<close> and \<open>preprocess\<close> leave
  it: no call registered, no flag set, no marker.
\<close>

definition fresh :: "compiledStatement \<Rightarrow> bool" where
  "fresh c =
     (FunctionCalls c = [] \<and> \<not> HasDistinct c \<and> \<not> HasAuxiliaryFields c
      \<and> TopBottomFunction c = [])"

text \<open>
  Statements for the examples about the selected fields: the fields \<open>fs\<close> selected
  from \<open>cpu\<close> with the row limit \<open>l\<close>, and the compiled statement that \<open>preprocess\<close>
  makes of it, before its fields are compiled.
\<close>

definition example_select :: "field list \<Rightarrow> int \<Rightarrow> select_statement" where
  "example_select fs l = SelectStatement fs [] [Measurement ''cpu''] None [] l NullFill None False"

definition example_fresh :: "int \<Rightarrow> compiledStatement" where
  "example_fresh l =
     \<lparr> Condition_c = None,
       TimeRange_c = \<lparr>Min_f = - 9223372036854775806, Max_f = 9223372036854775806\<rparr>,
       Interval_c = \<lparr>Duration = 0, Offset = 0\<rparr>,
       InheritedInterval = False, Ascending = True, FunctionCalls = [],
       OnlySelectors = True, HasDistinct = False, FillOption_c = NullFill,
       TopBottomFunction = [], HasAuxiliaryFields = False, Fields_c = [],
       TimeFieldName = ''time'', Limit_c = l, HasTarget = False,
       Options = \<lparr>Now = 1500000000000000000\<rparr> \<rparr>"

section \<open>Preprocessing resolves the default time bounds\<close>

lemma compileOffset_keeps:
  "compileOffset ext c e = Inr c' \<Longrightarrow>
     TimeRange_c c' = TimeRange_c c \<and> Options c' = Options c \<and>
     Duration (Interval_c c') = Duration (Interval_c c)"
  by (cases e) (auto simp: Let_def split: if_splits sum.splits)

lemma compileDimension_keeps:
  "compileDimension ext c d = Inr c' \<Longrightarrow>
     TimeRange_c c' = TimeRange_c c \<and> Options c' = Options c"
  by (cases d) (auto simp: Let_def split: if_splits expr.splits dest!: compileOffset_keeps)

lemma compileDimensions_loop_keeps:
  "compileDimensions_loop ext c ds = Inr c' \<Longrightarrow>
     TimeRange_c c' = TimeRange_c c \<and> Options c' = Options c"
proof (induction ds arbitrary: c)
  case Nil
  then show ?case by simp
next
  case (Cons d ds)
  then show ?case
    by (auto split: sum.splits dest!: compileDimension_keeps)
qed

lemma example1_preprocess:
  "preprocess (ext_example example1_range)
     (newCompiler (ext_example example1_range) \<lparr>Now = 1500000000000000000\<rparr>) example1_stmt
   = Inr example1_preprocessed"
  by (simp add: preprocess_def newCompiler_def ext_example_def example1_range_def
        example1_stmt_def example1_preprocessed_def compileDimensions_def TimeAscending_def
        IsZero_time_def zero_time_def IsZero_def Unix_nano_def Let_def)

text \<open>
  C3. When the filter condition yields no upper time bound, \<open>preprocess\<close> resolves the
  upper bound to the fixed now of the compile options if the statement has a non-zero
  grouping interval, and to the maximum representable timestamp otherwise; a missing
  lower bound resolves to the minimum representable timestamp. Bounds that the condition
  does yield are kept.
\<close>

theorem preprocess_default_bounds:
  assumes "ConditionExpr ext (Condition stmt) (Now (Options c)) = Inr (cond, t)"
      and "preprocess ext c stmt = Inr c'"
  shows "(IsZero_time (Max_f t) \<longrightarrow>
            Max_f (TimeRange_c c') =
              (if \<not> IsZero (Interval_c c') then Now (Options c) else Unix_nano MaxTime))
       \<and> (IsZero_time (Min_f t) \<longrightarrow> Min_f (TimeRange_c c') = Unix_nano MinTime)
       \<and> (\<not> IsZero_time (Max_f t) \<longrightarrow> Max_f (TimeRange_c c') = Max_f t)
       \<and> (\<not> IsZero_time (Min_f t) \<longrightarrow> Min_f (TimeRange_c c') = Min_f t)"
  using assms
  by (auto simp: preprocess_def compileDimensions_def Let_def
           split: sum.splits if_splits dest!: compileDimensions_loop_keeps)

theorem preprocess_default_bounds_witness:
  "ConditionExpr (ext_example example1_range) (Condition example1_stmt) 1500000000000000000
     = Inr (None, example1_range)
   \<and> preprocess (ext_example example1_range)
       (newCompiler (ext_example example1_range) \<lparr>Now = 1500000000000000000\<rparr>) example1_stmt
     = Inr example1_preprocessed
   \<and> IsZero_time (Max_f example1_range)
   \<and> \<not> IsZero_time (Min_f example1_range)
   \<and> \<not> IsZero (Interval_c example1_preprocessed)
   \<and> Max_f (TimeRange_c example1_preprocessed) = 1500000000000000000
   \<and> Min_f (TimeRange_c example1_preprocessed) = Min_f example1_range"
proof -
  let ?ext = "ext_example example1_range"
  let ?c = "newCompiler ?ext \<lparr>Now = 1500000000000000000\<rparr>"
  have now: "Now (Options ?c) = 1500000000000000000"
    by (simp add: newCompiler_def IsZero_time_def zero_time_def)
  have h1: "ConditionExpr ?ext (Condition example1_stmt) (Now (Options ?c)) = Inr (None, example1_range)"
    by (simp add: ext_example_def)
  have z: "IsZero_time (Max_f example1_range)" "\<not> IsZero_time (Min_f example1_range)"
    by (simp_all add: example1_range_def IsZero_time_def zero_time_def)
  have iv: "\<not> IsZero (Interval_c example1_preprocessed)"
    by (simp add: example1_preprocessed_def IsZero_def)
  from preprocess_default_bounds [OF h1 example1_preprocess] z iv now h1 example1_preprocess
  show ?thesis by simp
qed

section \<open>Subqueries: fill option and time range\<close>

lemma preprocess_fill:
  "preprocess ext c stmt = Inr c' \<Longrightarrow> FillOption_c c' = Fill stmt"
  by (auto simp: preprocess_def Let_def split: sum.splits if_splits)

lemmas example_eval = preprocess_def newCompiler_def ext_example_def compileDimensions_def
  TimeAscending_def IsZero_time_def zero_time_def IsZero_def Unix_nano_def Let_def
  subquery_prepare_def Intersect_def MinTime_def MaxTime_def example1_preprocessed_def
  example_sub_raw_def example_sub_grouped_def no_range_def

lemma example_sub_raw_preprocess:
  "preprocess (ext_example no_range)
     (newCompiler (ext_example no_range) (Options example1_preprocessed)) example_sub_raw
   = Inr \<lparr> Condition_c = None,
       TimeRange_c = \<lparr>Min_f = - 9223372036854775806, Max_f = 9223372036854775806\<rparr>,
       Interval_c = \<lparr>Duration = 0, Offset = 0\<rparr>,
       InheritedInterval = False, Ascending = True, FunctionCalls = [],
       OnlySelectors = True, HasDistinct = False, FillOption_c = NullFill,
       TopBottomFunction = [], HasAuxiliaryFields = False, Fields_c = [],
       TimeFieldName = ''time'', Limit_c = 0, HasTarget = False,
       Options = \<lparr>Now = 1500000000000000000\<rparr> \<rparr>"
  by (simp add: example_eval)

lemma example_sub_raw_prepare:
  "subquery_prepare (ext_example no_range) example1_preprocessed example_sub_raw
   = Inr \<lparr> Condition_c = None,
       TimeRange_c = \<lparr>Min_f = 1499996400000000001, Max_f = 1500000000000000000\<rparr>,
       Interval_c = \<lparr>Duration = 600000000000, Offset = 0\<rparr>,
       InheritedInterval = True, Ascending = True, FunctionCalls = [],
       OnlySelectors = True, HasDistinct = False, FillOption_c = NullFill,
       TopBottomFunction = [], HasAuxiliaryFields = False, Fields_c = [],
       TimeFieldName = ''time'', Limit_c = 0, HasTarget = False,
       Options = \<lparr>Now = 1500000000000000000\<rparr> \<rparr>"
  by (simp add: example_eval)

lemma example_sub_grouped_preprocess:
  "preprocess (ext_example no_range)
     (newCompiler (ext_example no_range) (Options example1_preprocessed)) example_sub_grouped
   = Inr \<lparr> Condition_c = None,
       TimeRange_c = \<lparr>Min_f = - 9223372036854775806, Max_f = 1500000000000000000\<rparr>,
       Interval_c = \<lparr>Duration = 60000000000, Offset = 0\<rparr>,
       InheritedInterval = False, Ascending = True, FunctionCalls = [],
       OnlySelectors = True, HasDistinct = False, FillOption_c = NullFill,
       TopBottomFunction = [], HasAuxiliaryFields = False, Fields_c = [],
       TimeFieldName = ''time'', Limit_c = 0, HasTarget = False,
       Options = \<lparr>Now = 1500000000000000000\<rparr> \<rparr>"
  by (simp add: example_eval)

lemma example_sub_grouped_prepare:
  "subquery_prepare (ext_example no_range) example1_preprocessed example_sub_grouped
   = Inr \<lparr> Condition_c = None,
       TimeRange_c = \<lparr>Min_f = 1499996400000000001, Max_f = 1500000000000000000\<rparr>,
       Interval_c = \<lparr>Duration = 60000000000, Offset = 0\<rparr>,
       InheritedInterval = False, Ascending = True, FunctionCalls = [],
       OnlySelectors = True, HasDistinct = False, FillOption_c = NoFill,
       TopBottomFunction = [], HasAuxiliaryFields = False, Fields_c = [],
       TimeFieldName = ''time'', Limit_c = 0, HasTarget = False,
       Options = \<lparr>Now = 1500000000000000000\<rparr> \<rparr>"
  by (simp add: example_eval)

text \<open>
  C2, as the specification states it, fails: the subquery \<open>SELECT value FROM cpu\<close> has
  no grouping interval of its own and the fill option "fill with null", and keeps that
  fill option; the subquery \<open>SELECT mean(value) FROM cpu GROUP BY time(1m)\<close> has a
  grouping interval and has its fill option changed to "no fill".
\<close>

theorem subquery_fill_counterexample:
  "result_interval (preprocess (ext_example no_range)
      (newCompiler (ext_example no_range) (Options example1_preprocessed)) example_sub_raw)
     = Some \<lparr>Duration = 0, Offset = 0\<rparr>
   \<and> Fill example_sub_raw = NullFill
   \<and> result_fill (subquery_prepare (ext_example no_range) example1_preprocessed example_sub_raw)
     = Some NullFill
   \<and> result_interval (preprocess (ext_example no_range)
      (newCompiler (ext_example no_range) (Options example1_preprocessed)) example_sub_grouped)
     = Some \<lparr>Duration = 60000000000, Offset = 0\<rparr>
   \<and> Fill example_sub_grouped = NullFill
   \<and> result_fill (subquery_prepare (ext_example no_range) example1_preprocessed example_sub_grouped)
     = Some NoFill"
  by (simp add: example_sub_raw_preprocess example_sub_raw_prepare example_sub_grouped_preprocess
        example_sub_grouped_prepare result_interval_def result_fill_def)
    (simp add: example_sub_raw_def example_sub_grouped_def)

text \<open>
  C2, amended. A subquery whose fill option is "fill with null" and whose own grouping
  interval is present (non-zero) has its fill option changed to "no fill"; in every other
  case the fill option of the subquery is the one its statement declares.
\<close>

theorem subquery_fill_option:
  assumes "preprocess ext (newCompiler ext (Options c)) stmt = Inr p"
      and "subquery_prepare ext c stmt = Inr sq"
  shows "FillOption_c sq =
           (if \<not> IsZero (Interval_c p) \<and> Fill stmt = NullFill then NoFill else Fill stmt)"
  using assms preprocess_fill [OF assms(1)]
  by (auto simp: subquery_prepare_def Let_def split: if_splits)

theorem subquery_fill_option_witness:
  "\<not> IsZero \<lparr>Duration = 60000000000, Offset = 0\<rparr> \<and> Fill example_sub_grouped = NullFill
   \<and> result_fill (subquery_prepare (ext_example no_range) example1_preprocessed example_sub_grouped)
     = Some NoFill"
proof -
  have f: "Fill example_sub_grouped = NullFill"
    by (simp add: example_sub_grouped_def)
  have r: "result_fill (subquery_prepare (ext_example no_range) example1_preprocessed
             example_sub_grouped) = Some NoFill"
    using subquery_fill_option [OF example_sub_grouped_preprocess example_sub_grouped_prepare] f
    by (simp add: example_sub_grouped_prepare result_fill_def IsZero_def)
  from f r show ?thesis by (simp add: IsZero_def)
qed

lemma in_range_Intersect:
  "in_range (Intersect r other) t = (in_range r t \<and> in_range other t)"
  by (auto simp: in_range_def Intersect_def Let_def)

text \<open>
  C5. After the compilation of a subquery its time range holds exactly the instants that
  lie both in the range the subquery resolved for itself and in the range of the parent;
  so it is never wider than the parent's.
\<close>

theorem subquery_time_range:
  assumes "preprocess ext (newCompiler ext (Options c)) stmt = Inr p"
      and "subquery_prepare ext c stmt = Inr sq"
  shows "(in_range (TimeRange_c sq) t = (in_range (TimeRange_c p) t \<and> in_range (TimeRange_c c) t))
       \<and> (in_range (TimeRange_c sq) t \<longrightarrow> in_range (TimeRange_c c) t)"
  using assms
  by (auto simp: subquery_prepare_def Let_def in_range_Intersect split: if_splits)

theorem subquery_time_range_witness:
  "result_range (subquery_prepare (ext_example no_range) example1_preprocessed example_sub_grouped)
     = Some \<lparr>Min_f = 1499996400000000001, Max_f = 1500000000000000000\<rparr>
   \<and> in_range \<lparr>Min_f = 1499996400000000001, Max_f = 1500000000000000000\<rparr> 1499999000000000000
   \<and> in_range (TimeRange_c example1_preprocessed) 1499999000000000000
   \<and> \<not> in_range \<lparr>Min_f = 1499996400000000001, Max_f = 1500000000000000000\<rparr> 1400000000000000000
   \<and> in_range \<lparr>Min_f = - 9223372036854775806, Max_f = 1500000000000000000\<rparr> 1400000000000000000"
proof -
  have r: "result_range (subquery_prepare (ext_example no_range) example1_preprocessed
             example_sub_grouped)
           = Some \<lparr>Min_f = 1499996400000000001, Max_f = 1500000000000000000\<rparr>"
    by (simp add: example_sub_grouped_prepare result_range_def)
  have p: "TimeRange_c example1_preprocessed
           = \<lparr>Min_f = 1499996400000000001, Max_f = 1500000000000000000\<rparr>"
    by (simp add: example1_preprocessed_def)
  from subquery_time_range [OF example_sub_grouped_preprocess example_sub_grouped_prepare,
          of 1499999000000000000]
       subquery_time_range [OF example_sub_grouped_preprocess example_sub_grouped_prepare,
          of 1400000000000000000]
  show ?thesis unfolding r p
    by (simp add: in_range_def IsZero_time_def zero_time_def)
qed

section \<open>Dimensions\<close>

lemma compileDimension_Call:
  "compileDimension ext c (Call n args) =
     (if n \<noteq> ''time'' then Inl OnlyTimeCallsAllowed
      else if length args < 1 \<or> length args > 2 then Inl TimeDimensionArgumentCount
      else case time_call_duration (Call n args) of
        None \<Rightarrow> Inl TimeDimensionMustHaveDuration
      | Some v \<Rightarrow>
          (if Duration (Interval_c c) \<noteq> 0 then Inl MultipleTimeDimensions
           else if length args = 2
             then compileOffset ext (c\<lparr>Interval_c := (Interval_c c)\<lparr>Duration := v\<rparr>\<rparr>) (args ! 1)
             else Inr (c\<lparr>Interval_c := (Interval_c c)\<lparr>Duration := v\<rparr>\<rparr>)))"
proof -
  have "length args < 1 \<or> length args > 2 \<or> length args = 1 \<or> length args = 2" by arith
  then show ?thesis
    by (cases "args ! 0") (auto simp: time_call_duration_def Let_def)
qed

lemma compileDimension_ok:
  "compileDimension ext c d = Inr c' \<Longrightarrow> dimension_ok ext d"
proof (cases d)
  case (Call n args)
  assume "compileDimension ext c d = Inr c'"
  then show ?thesis unfolding Call compileDimension_Call
    by (auto simp: dimension_ok_def split: if_splits option.splits)
qed (auto simp: dimension_ok_def split: if_splits)

lemma compileDimension_duration:
  assumes "compileDimension ext c d = Inr c'"
  shows "Duration (Interval_c c') =
           (case time_call_duration d of Some v \<Rightarrow> v | None \<Rightarrow> Duration (Interval_c c))
         \<and> (time_call_duration d \<noteq> None \<longrightarrow> Duration (Interval_c c) = 0)"
proof (cases d)
  case (Call n args)
  from assms show ?thesis unfolding Call compileDimension_Call
    by (auto split: if_splits option.splits dest!: compileOffset_keeps)
qed (use assms in \<open>auto simp: time_call_duration_def split: if_splits\<close>)

lemma compileDimensions_loop_ok:
  "compileDimensions_loop ext c ds = Inr c' \<Longrightarrow> \<forall>d \<in> set ds. dimension_ok ext d"
  by (induction ds arbitrary: c) (auto split: sum.splits dest: compileDimension_ok)

lemma compileDimensions_loop_after_interval:
  "compileDimensions_loop ext c ds = Inr c' \<Longrightarrow> Duration (Interval_c c) \<noteq> 0 \<Longrightarrow>
     filter declares_interval ds = []"
proof (induction ds arbitrary: c)
  case Nil
  then show ?case by simp
next
  case (Cons d ds)
  from Cons.prems(1) obtain c1 where
    c1: "compileDimension ext c d = Inr c1" and rest: "compileDimensions_loop ext c1 ds = Inr c'"
    by (auto split: sum.splits)
  from compileDimension_duration [OF c1] Cons.prems(2)
  have "time_call_duration d = None" "Duration (Interval_c c1) \<noteq> 0" by auto
  with Cons.IH [OF rest] show ?case by (simp add: declares_interval_def)
qed

lemma compileDimensions_loop_one_interval:
  "compileDimensions_loop ext c ds = Inr c' \<Longrightarrow> Duration (Interval_c c) = 0 \<Longrightarrow>
     length (filter declares_interval ds) \<le> 1"
proof (induction ds arbitrary: c)
  case Nil
  then show ?case by simp
next
  case (Cons d ds)
  from Cons.prems(1) obtain c1 where
    c1: "compileDimension ext c d = Inr c1" and rest: "compileDimensions_loop ext c1 ds = Inr c'"
    by (auto split: sum.splits)
  show ?case
  proof (cases "declares_interval d")
    case True
    with compileDimension_duration [OF c1] have "Duration (Interval_c c1) \<noteq> 0"
      by (auto simp: declares_interval_def split: option.splits)
    from compileDimensions_loop_after_interval [OF rest this] True show ?thesis by simp
  next
    case False
    with compileDimension_duration [OF c1] Cons.prems(2) have "Duration (Interval_c c1) = 0"
      by (auto simp: declares_interval_def split: option.splits)
    from Cons.IH [OF rest this] False show ?thesis by simp
  qed
qed

text \<open>
  What \<open>compileDimensions\<close> does check. A dimension that is a call must be the \<open>time\<close>
  function with one or two arguments whose first argument is a duration literal, a
  \<open>time\<close> call met when a non-zero interval duration is already recorded fails with the
  multiple-time-dimensions error, and a bare reference that \<open>strings.ToLower\<close> maps to
  \<open>time\<close> is rejected.
\<close>

lemma compileDimensions_checks:
  "(compileDimensions ext c stmt = Inr c' \<longrightarrow>
      (\<forall>d \<in> set (Dimensions stmt). dimension_ok ext d)
      \<and> (Duration (Interval_c c) = 0 \<longrightarrow>
           length (filter declares_interval (Dimensions stmt)) \<le> 1))
   \<and> (time_call_duration d \<noteq> None \<and> Duration (Interval_c c2) \<noteq> 0 \<longrightarrow>
        compileDimension ext c2 d = Inl MultipleTimeDimensions)
   \<and> (n = ''time'' \<and> (length args = 1 \<or> length args = 2)
        \<and> (\<forall>v. args ! 0 \<noteq> DurationLiteral v) \<longrightarrow>
        compileDimension ext c (Call n args) = Inl TimeDimensionMustHaveDuration)
   \<and> (ToLower ext v = ''time'' \<longrightarrow> compileDimension ext c (VarRef v) = Inl TimeIsAFunction)"
proof (intro conjI impI)
  assume "compileDimensions ext c stmt = Inr c'"
  then show "\<forall>d \<in> set (Dimensions stmt). dimension_ok ext d"
    unfolding compileDimensions_def by (rule compileDimensions_loop_ok)
next
  assume "compileDimensions ext c stmt = Inr c'" "Duration (Interval_c c) = 0"
  then show "length (filter declares_interval (Dimensions stmt)) \<le> 1"
    unfolding compileDimensions_def by (rule compileDimensions_loop_one_interval)
next
  assume a: "time_call_duration d \<noteq> None \<and> Duration (Interval_c c2) \<noteq> 0"
  then obtain m as where d: "d = Call m as"
    by (cases d) (auto simp: time_call_duration_def)
  from a show "compileDimension ext c2 d = Inl MultipleTimeDimensions"
    unfolding d compileDimension_Call
    by (auto simp: time_call_duration_def split: if_splits)
next
  assume a: "n = ''time'' \<and> (length args = 1 \<or> length args = 2)
               \<and> (\<forall>v. args ! 0 \<noteq> DurationLiteral v)"
  then have "time_call_duration (Call n args) = None"
    by (cases "args ! 0") (auto simp: time_call_duration_def)
  with a show "compileDimension ext c (Call n args) = Inl TimeDimensionMustHaveDuration"
    unfolding compileDimension_Call by auto
next
  assume "ToLower ext v = ''time''"
  then show "compileDimension ext c (VarRef v) = Inl TimeIsAFunction" by simp
qed

text \<open>
  C9 at dimensions whose first argument is a duration literal that is not positive.
  The first argument of a \<open>time\<close> call must be a positive duration, and a second \<open>time\<close>
  call must fail. \<open>compileDimensions\<close> never looks at the sign of the duration:
  \<open>GROUP BY time(0s, 5s)\<close> takes the remainder of the offset by the zero duration, which
  is an integer division by zero and panics; \<open>GROUP BY time(-5ns)\<close> is accepted with the
  interval duration \<open>-5\<close>; and since the test for an earlier \<open>time\<close> call is that the
  recorded duration is not zero, \<open>GROUP BY time(0s), time(0s), time(10m)\<close> is accepted
  with three \<open>time\<close> calls.
\<close>

theorem compileDimensions_nonpositive_duration:
  "compileDimensions (ext_example no_range)
      (newCompiler (ext_example no_range) \<lparr>Now = 1500000000000000000\<rparr>)
      (SelectStatement [\<lparr>Expr = Call ''mean'' [VarRef ''value''], Alias = []\<rparr>]
         [Call ''time'' [DurationLiteral 0, DurationLiteral 5000000000]]
         [Measurement ''cpu''] None [] 0 NullFill None False)
   = Inl DivideByZeroPanic
   \<and> result_interval (compileDimensions (ext_example no_range)
      (newCompiler (ext_example no_range) \<lparr>Now = 1500000000000000000\<rparr>)
      (SelectStatement [\<lparr>Expr = Call ''mean'' [VarRef ''value''], Alias = []\<rparr>]
         [Call ''time'' [DurationLiteral (- 5)]]
         [Measurement ''cpu''] None [] 0 NullFill None False))
   = Some \<lparr>Duration = - 5, Offset = 0\<rparr>
   \<and> result_interval (compileDimensions (ext_example no_range)
      (newCompiler (ext_example no_range) \<lparr>Now = 1500000000000000000\<rparr>)
      (SelectStatement [\<lparr>Expr = Call ''mean'' [VarRef ''value''], Alias = []\<rparr>]
         [Call ''time'' [DurationLiteral 0], Call ''time'' [DurationLiteral 0],
          Call ''time'' [DurationLiteral 600000000000]]
         [Measurement ''cpu''] None [] 0 NullFill None False))
   = Some \<lparr>Duration = 600000000000, Offset = 0\<rparr>"
  by (simp add: compileDimensions_def newCompiler_def result_interval_def Let_def)

section \<open>The first argument of derivative\<close>

lemma compileDerivative_Nil:
  "compileDerivative c aw [] nn = Inl (InvalidNumberOfArguments (derivative_name nn))"
  by (simp add: derivative_name_def)

lemma compileDerivative_Cons:
  "compileDerivative c aw (a # rest) nn =
     (if length rest > 1 then Inl (InvalidNumberOfArguments (derivative_name nn))
      else case checkDurationArg (derivative_name nn) (a # rest) of
        Some e \<Rightarrow> Inl e
      | None \<Rightarrow>
          (if isCall a then
             (if IsZero (Interval_c c) then Inl (RequiresGroupByInterval (derivative_name nn))
              else compileExpr (c\<lparr>OnlySelectors := False\<rparr>) aw a)
           else
             (if \<not> IsZero (Interval_c c) then Inl (AggregateFunctionRequired (derivative_name nn))
              else with_flag aw (compileSymbol (c\<lparr>OnlySelectors := False\<rparr>) aw (derivative_name nn) a))))"
  by (cases a) (simp_all add: Let_def isCall_def IsZero_def derivative_name_def split: option.splits)



section \<open>Planning: the bucket budget\<close>

lemmas planner_eval = planner_example_def
  Window_def IsZero_def MinTime_of_def MaxTime_of_def IsZero_time_def zero_time_def
  UnixNano_def Unix_nano_def wrap64_def go_div_def MinTime_def MaxTime_def MinNanoTime_def
  Let_def

lemma planner_example_fields:
  "GroupByInterval (planner_example i off) s = Inr i"
  "GroupByOffset (planner_example i off) s = Inr off"
  "WindowOp (planner_example i off) = Window"
  "MapShards (planner_example i off) srcs tr sopt = Inr 0"
  "RewriteFields (planner_example i off) s sh = Inr s"
  "newIteratorOptionsStmt (planner_example i off) s sopt =
     Inr \<lparr>Interval_o = \<lparr>Duration = i, Offset = off\<rparr>, StartTime = 0, EndTime = 0,
          Ascending_o = False\<rparr>"
  "ColumnNames (planner_example i off) s = [''time'', ''mean'']"
  by (simp_all add: planner_example_def)

lemma example_before_epoch_shardTimeRange:
  "shardTimeRange (planner_example 600000000000 0) example_before_epoch
      (example_grouped_stmt 600000000000) \<lparr>MaxBucketsN = 100\<rparr>
     = Inr \<lparr>Min_f = - 9223372036854775806, Max_f = - 315619200000000001\<rparr>"
  by code_simp

text \<open>
  C1 at a statement whose upper time bound lies before 1970: with a budget of 100 buckets
  and a 10 minute interval the full range down to the minimum timestamp holds 14846255
  windows, and the range handed to the shard mapper keeps the minimum timestamp as its
  lower bound instead of the start of the 99th window before the last one.
\<close>

theorem shardTimeRange_before_epoch:
  "shardTimeRange (planner_example 600000000000 0) example_before_epoch
      (example_grouped_stmt 600000000000) \<lparr>MaxBucketsN = 100\<rparr>
     = Inr \<lparr>Min_f = - 9223372036854775806, Max_f = - 315619200000000001\<rparr>
   \<and> MinNanoTime = - 9223372036854775806
   \<and> windows_between \<lparr>Duration = 600000000000, Offset = 0\<rparr>
        (- 9223372036854775806) (- 315619200000000002) = 14846255
   \<and> windows_between \<lparr>Duration = 600000000000, Offset = 0\<rparr>
        (- 315679200000000000) (- 315619200000000002) = 100"
  by (simp add: example_before_epoch_shardTimeRange MinNanoTime_def windows_between_def)

lemma example_wide_shardTimeRange:
  "shardTimeRange (planner_example 3600000000000 0) example_wide
      (example_grouped_stmt 3600000000000) \<lparr>MaxBucketsN = 100\<rparr>
     = Inr \<lparr>Min_f = - 8520336000000000000, Max_f = 1577836799999999999\<rparr>"
  by (simp add: shardTimeRange_def example_wide_def MinTime_of_def IsZero_time_def
        zero_time_def UnixNano_def wrap64_def MinTime_def)

lemma example_wide_bucketCheck:
  "bucketCheck (planner_example 3600000000000 0) example_wide
      (example_grouped_stmt 3600000000000)
      \<lparr>Interval_o = \<lparr>Duration = 3600000000000, Offset = 0\<rparr>,
       StartTime = - 8520336000000000000, EndTime = 1577836799999999999,
       Ascending_o = True\<rparr> \<lparr>MaxBucketsN = 100\<rparr>
   = None"
  by code_simp

lemma example_wide_bounds:
  "MinTime_of (TimeRange_c example_wide) = - 8520336000000000000"
  "MaxTime_of (TimeRange_c example_wide) = 1577836799999999999"
  "Ascending example_wide = True"
  by (simp_all add: example_wide_def MinTime_of_def MaxTime_of_def IsZero_time_def
        zero_time_def UnixNano_def wrap64_def)

text \<open>
  C4 at a statement whose time range is wider than \<open>2 ^ 63\<close> nanoseconds: from 1700 to
  2020 in windows of one hour there are 2805048 windows, far beyond a budget of 100, and
  \<open>Prepare\<close> returns a prepared statement without closing the shard set.
\<close>

theorem Prepare_wide_range:
  "Prepare (planner_example 3600000000000 0) example_wide
      (example_grouped_stmt 3600000000000) \<lparr>MaxBucketsN = 100\<rparr>
     = ([MapShardsCalled \<lparr>Min_f = - 8520336000000000000, Max_f = 1577836799999999999\<rparr>],
        Inr \<lparr> stmt_p = example_grouped_stmt 3600000000000,
              opt_p = \<lparr>Interval_o = \<lparr>Duration = 3600000000000, Offset = 0\<rparr>,
                       StartTime = - 8520336000000000000, EndTime = 1577836799999999999,
                       Ascending_o = True\<rparr>,
              ic_p = 0, columns_p = [''time'', ''mean''] \<rparr>)
   \<and> MinTime < - 8520336000000000000
   \<and> windows_between \<lparr>Duration = 3600000000000, Offset = 0\<rparr>
        (- 8520336000000000000) (1577836799999999998) = 2805048"
proof -
  have "windows_between \<lparr>Duration = 3600000000000, Offset = 0\<rparr>
          (- 8520336000000000000) (1577836799999999998) = 2805048"
    by (simp add: windows_between_def)
  moreover have "MinTime < - 8520336000000000000"
    by (simp add: MinTime_def)
  moreover have "Prepare (planner_example 3600000000000 0) example_wide
      (example_grouped_stmt 3600000000000) \<lparr>MaxBucketsN = 100\<rparr>
     = ([MapShardsCalled \<lparr>Min_f = - 8520336000000000000, Max_f = 1577836799999999999\<rparr>],
        Inr \<lparr> stmt_p = example_grouped_stmt 3600000000000,
              opt_p = \<lparr>Interval_o = \<lparr>Duration = 3600000000000, Offset = 0\<rparr>,
                       StartTime = - 8520336000000000000, EndTime = 1577836799999999999,
                       Ascending_o = True\<rparr>,
              ic_p = 0, columns_p = [''time'', ''mean''] \<rparr>)"
    by (simp add: Prepare_def example_wide_shardTimeRange planner_example_fields
          example_wide_bounds example_wide_bucketCheck)
  ultimately show ?thesis by simp
qed

section \<open>Planning: where the bucket arithmetic is exact\<close>

lemma wrap64_id: "- (2 ^ 63) \<le> x \<Longrightarrow> x < 2 ^ 63 \<Longrightarrow> wrap64 x = x"
  by (simp add: wrap64_def)

lemma wrap64_period: "wrap64 (x + 2 ^ 64) = wrap64 x"
proof -
  have "(x + 2 ^ 64 + 2 ^ 63) mod 2 ^ 64 = ((x + 2 ^ 63) + 2 ^ 64) mod (2 ^ 64 :: int)"
    by (rule arg_cong [where f = "\<lambda>y. y mod 2 ^ 64"]) simp
  also have "\<dots> = (x + 2 ^ 63) mod 2 ^ 64"
    by (rule mod_add_self2)
  finally show ?thesis
    unfolding wrap64_def by (rule arg_cong [where f = "\<lambda>y. y - 2 ^ 63"])
qed

lemma go_div_nonneg:
  assumes "0 \<le> a" and "a < 2 ^ 63" and "0 < b"
  shows "go_div a b = a div b"
proof -
  have "0 \<le> a div b" using assms by (simp add: pos_imp_zdiv_nonneg_iff)
  moreover have "a div b \<le> a" using zdiv_mono2 [of a 1 b] assms by simp
  ultimately have "wrap64 (a div b) = a div b"
    using assms(2) by (intro wrap64_id) simp_all
  moreover have "sgn a * sgn b * (\<bar>a\<bar> div \<bar>b\<bar>) = a div b"
    using assms by (cases "a = 0") simp_all
  ultimately show ?thesis by (simp add: go_div_def)
qed

lemma go_div_neg:
  assumes "a < 0" and "- (2 ^ 63) \<le> a" and "0 < b"
  shows "go_div a b \<le> 0"
proof -
  let ?q = "\<bar>a\<bar> div b"
  have q0: "0 \<le> ?q" using assms by (simp add: pos_imp_zdiv_nonneg_iff)
  have "?q \<le> \<bar>a\<bar>" using zdiv_mono2 [of "\<bar>a\<bar>" 1 b] assms by simp
  with assms have q1: "?q \<le> 2 ^ 63" by simp
  have "wrap64 (- ?q) = - ?q"
    using q0 q1 by (intro wrap64_id) simp_all
  moreover have "sgn a * sgn b * (\<bar>a\<bar> div \<bar>b\<bar>) = - ?q"
    using assms by simp
  ultimately show ?thesis using q0 by (simp add: go_div_def)
qed

text \<open>
  With an upper bound after 1970 the subtraction \<open>last - MinNanoTime\<close> overflows to a
  negative number and \<open>shardTimeRange\<close> narrows the lower bound, whatever the budget: to
  the start of the window \<open>MaxBucketsN - 1\<close> windows before the last one (provided that
  product fits in \<open>int64\<close>).
\<close>

lemma shardTimeRange_after_epoch:
  assumes "0 < MaxBucketsN sopt" and "\<not> IsRawQuery cstmt"
      and "MinTime_of (TimeRange_c c) = MinTime"
      and "GroupByInterval pl cstmt = Inr d" and "GroupByOffset pl cstmt = Inr off"
      and "0 < d" and "WindowOp pl = Window"
      and "w = fst (Window \<lparr>Interval_o = \<lparr>Duration = d, Offset = off\<rparr>, StartTime = 0,
                                EndTime = 0, Ascending_o = False\<rparr>
                         (wrap64 (MaxTime_of (TimeRange_c c) - 1)))"
      and "2 \<le> w" and "w < 2 ^ 63" and "d * (MaxBucketsN sopt - 1) < 2 ^ 63"
  shows "shardTimeRange pl c cstmt sopt
         = Inr ((TimeRange_c c)\<lparr>Min_f := w - d * (MaxBucketsN sopt - 1)\<rparr>)"
proof -
  let ?n = "MaxBucketsN sopt"
  have "wrap64 (w - MinNanoTime) = wrap64 ((w - 2 ^ 63 - 2) + 2 ^ 64)"
    by (rule arg_cong [where f = wrap64]) (simp add: MinNanoTime_def)
  also have "\<dots> = wrap64 (w - 2 ^ 63 - 2)"
    by (rule wrap64_period)
  also have "\<dots> = w - 2 ^ 63 - 2"
    using assms(9,10) by (intro wrap64_id) simp_all
  finally have diff: "wrap64 (w - MinNanoTime) = w - 2 ^ 63 - 2" .
  have neg: "w - 2 ^ 63 - 2 < 0" "- (2 ^ 63) \<le> w - 2 ^ 63 - 2"
    using assms(9,10) by simp_all
  have "go_div (w - 2 ^ 63 - 2) d \<le> 0"
    using neg assms(6) by (intro go_div_neg) simp_all
  with assms(1) have branch: "\<not> go_div (wrap64 (w - MinNanoTime)) d > ?n"
    by (simp add: diff)
  have n1: "0 \<le> ?n - 1" using assms(1) by simp
  have "1 * (?n - 1) \<le> d * (?n - 1)"
    using assms(6) n1 by (intro mult_right_mono) simp_all
  with assms(11) have "?n - 1 < 2 ^ 63" by simp
  with n1 have w1: "wrap64 (?n - 1) = ?n - 1" by (intro wrap64_id) simp_all
  have p0: "0 \<le> d * (?n - 1)" using assms(6) n1 by simp
  with assms(11) have w2: "wrap64 (d * (?n - 1)) = d * (?n - 1)"
    by (intro wrap64_id) simp_all
  have w3: "wrap64 (w - d * (?n - 1)) = w - d * (?n - 1)"
    using assms(9,10,11) p0 by (intro wrap64_id) simp_all
  have st: "shardTimeRange pl c cstmt sopt =
              (if ?n < go_div (wrap64 (w - MinNanoTime)) d
               then Inr ((TimeRange_c c)\<lparr>Min_f := Unix_nano MinNanoTime\<rparr>)
               else Inr ((TimeRange_c c)\<lparr>Min_f :=
                      Unix_nano (wrap64 (w - wrap64 (d * wrap64 (?n - 1))))\<rparr>))"
    using assms(1-7)
    by (simp add: shardTimeRange_def Let_def assms(8) [symmetric])
  show ?thesis
    unfolding st w1 w2 w3 Unix_nano_def using branch by simp
qed

text \<open>
  The check after the mapping compares the true number of windows with the budget
  whenever the time range is narrow enough for \<open>last - first + interval\<close> to fit in
  \<open>int64\<close>.
\<close>

lemma bucketCheck_exact:
  assumes "0 < MaxBucketsN sopt" and "\<not> IsRawQuery stmt"
      and "MinTime < MinTime_of (TimeRange_c c)"
      and "GroupByInterval pl stmt = Inr d" and "0 < d" and "WindowOp pl = Window"
      and "Interval_o opt = \<lparr>Duration = d, Offset = off\<rparr>"
      and "- (2 ^ 63) < EndTime opt" and "EndTime opt < 2 ^ 63"
      and "StartTime opt < EndTime opt"
      and "EndTime opt - StartTime opt + 2 * d < 2 ^ 63"
  shows "bucketCheck pl c stmt opt sopt =
           (if MaxBucketsN sopt < windows_between (Interval_o opt) (StartTime opt) (EndTime opt - 1)
            then Some (MaxSelectBucketsExceeded
                   (windows_between (Interval_o opt) (StartTime opt) (EndTime opt - 1))
                   (MaxBucketsN sopt))
            else None)"
proof -
  let ?s = "StartTime opt" and ?e = "EndTime opt - 1"
  let ?first = "?s - (?s - off) mod d" and ?last = "?e - (?e - off) mod d"
  have we: "wrap64 (EndTime opt - 1) = ?e"
    using assms(8,9) by (intro wrap64_id) simp_all
  have m1: "0 \<le> (?s - off) mod d" "(?s - off) mod d < d"
    using assms(5) by simp_all
  have m2: "0 \<le> (?e - off) mod d" "(?e - off) mod d < d"
    using assms(5) by simp_all
  have mono: "(?s - off) div d \<le> (?e - off) div d"
    using assms(5,10) by (intro zdiv_mono1) simp_all
  have f: "?first = d * ((?s - off) div d) + off"
    by (simp add: minus_mod_eq_mult_div algebra_simps)
  have l: "?last = d * ((?e - off) div d) + off"
    by (simp add: minus_mod_eq_mult_div algebra_simps)
  have ge: "0 \<le> ?last - ?first"
    using mono assms(5) by (simp add: f l mult_left_mono)
  have lt: "?last - ?first + d < 2 ^ 63"
    using m1(2) m2(1) assms(11) by linarith
  have w1: "wrap64 (?last - ?first) = ?last - ?first"
    using ge lt assms(5) by (intro wrap64_id) simp_all
  have w2: "wrap64 (?last - ?first + d) = ?last - ?first + d"
    using ge lt assms(5) by (intro wrap64_id) simp_all
  have g: "go_div (?last - ?first + d) d = (?last - ?first + d) div d"
    using ge lt assms(5) by (intro go_div_nonneg) simp_all
  have wb: "windows_between (Interval_o opt) ?s ?e = (?last - ?first + d) div d"
    using assms(5,7) by (simp add: windows_between_def Let_def)
  have nz: "\<not> IsZero (Interval_o opt)"
    using assms(5,7) by (simp add: IsZero_def)
  have bc: "bucketCheck pl c stmt opt sopt =
              (if MaxBucketsN sopt < go_div (wrap64 (wrap64 (?last - ?first) + d)) d
               then Some (MaxSelectBucketsExceeded
                      (go_div (wrap64 (wrap64 (?last - ?first) + d)) d) (MaxBucketsN sopt))
               else None)"
    using assms(1-7) nz
    by (simp add: bucketCheck_def Window_def Let_def we)
  show ?thesis
    unfolding bc w1 w2 g wb by (rule refl)
qed

section \<open>What the compilation of an expression changes\<close>

lemma with_flag_Inr: "with_flag aw x = Inr r \<longleftrightarrow> snd r = aw \<and> x = Inr (fst r)"
  by (cases x; cases r) (auto simp: with_flag_def)

lemma plain_quiet:
  "plain x \<Longrightarrow>
     calls_of x = [] \<and> \<not> uses_distinct x \<and> \<not> uses_top_bottom x
     \<and> extra_fields ht x = [] \<and> \<not> isCall x
     \<and> \<not> (case x of Call p q \<Rightarrow> aux_of ht x | _ \<Rightarrow> False)"
  by (cases x) (simp_all add: isCall_def)

lemma plain_args_quiet:
  assumes "\<forall>x \<in> set args. plain x"
  shows "concat (map calls_of args) = []"
    and "\<not> (\<exists>a \<in> set args. uses_distinct a)"
    and "\<not> (\<exists>a \<in> set args. uses_top_bottom a)"
    and "concat (map (extra_fields ht) args) = []"
    and "\<not> (\<exists>a \<in> set args. (case a of Call p q \<Rightarrow> aux_of ht a | _ \<Rightarrow> False))"
    and "\<not> count_distinct_arg args"
proof -
  from assms show "concat (map calls_of args) = []"
    by (induction args) (simp_all add: plain_quiet)
  from assms show "\<not> (\<exists>a \<in> set args. uses_distinct a)"
    by (auto dest: plain_quiet)
  from assms show "\<not> (\<exists>a \<in> set args. uses_top_bottom a)"
    by (auto dest: plain_quiet)
  from assms show "concat (map (extra_fields ht) args) = []"
    by (induction args) (simp_all add: plain_quiet)
  from assms show "\<not> (\<exists>a \<in> set args. (case a of Call p q \<Rightarrow> aux_of ht a | _ \<Rightarrow> False))"
    using plain_quiet by blast
  from assms show "\<not> count_distinct_arg args"
    by (cases args rule: count_distinct_arg.cases) auto
qed

lemma literal_quiet:
  "is_Literal x \<Longrightarrow>
     calls_of x = [] \<and> \<not> uses_distinct x \<and> \<not> uses_top_bottom x \<and> extra_fields ht x = []"
  by (cases x) simp_all

lemma keeps_trans: "keeps a b \<Longrightarrow> keeps b c \<Longrightarrow> keeps a c"
  by (simp add: keeps_def frame_def)

lemma keeps_OnlySelectors: "keeps (c\<lparr>OnlySelectors := b\<rparr>) c' = keeps c c'"
  by (simp add: keeps_def frame_def)

lemma effect_OnlySelectors: "effect (c\<lparr>OnlySelectors := b\<rparr>) e c' = effect c e c'"
  by (simp add: effect_def frame_def)

lemma effect_call_plain:
  assumes "keeps (c\<lparr>FunctionCalls := FunctionCalls c @ [Call n args]\<rparr>) c'"
      and "\<forall>x \<in> set args. plain x"
      and "n \<noteq> ''top''" and "n \<noteq> ''bottom''" and "n \<noteq> ''distinct''"
  shows "effect c (Call n args) c'"
  using assms(1,3-5)
  by (simp add: effect_def keeps_def frame_def top_bottom_args_ok_def
        plain_args_quiet [OF assms(2)])

lemma effect_call_nested:
  assumes "effect (c\<lparr>FunctionCalls := FunctionCalls c @ [Call n (a # rest)]\<rparr>) a c'"
      and "isCall a" and "\<forall>x \<in> set rest. plain x"
      and "n \<noteq> ''top''" and "n \<noteq> ''bottom''" and "n \<noteq> ''distinct''" and "n \<noteq> ''count''"
  shows "effect c (Call n (a # rest)) c'"
proof -
  from assms(2) have a: "(case a of Call p q \<Rightarrow> aux_of ht a | _ \<Rightarrow> False) = aux_of ht a" for ht
    by (cases a) (simp_all add: isCall_def)
  from assms(1,4-7) show ?thesis
    by (auto simp: effect_def frame_def top_bottom_args_ok_def a
          plain_args_quiet [OF assms(3)] split: if_splits)
qed

lemma effect_count_distinct:
  assumes "keeps (c\<lparr>FunctionCalls := FunctionCalls c @ [Call ''count'' [a]], HasDistinct := True\<rparr>) c'"
      and "(\<exists>x. a = Call ''distinct'' [VarRef x]) \<or> (\<exists>v. a = Distinct v)"
  shows "effect c (Call ''count'' [a]) c'"
  using assms by (auto simp: effect_def keeps_def frame_def top_bottom_args_ok_def)

lemma effect_distinct:
  assumes "keeps (c\<lparr>FunctionCalls := FunctionCalls c @ [Call ''distinct'' [VarRef x]], HasDistinct := True\<rparr>) c'"
  shows "effect c (Call ''distinct'' [VarRef x]) c'" and "effect c (Distinct x) c'"
  using assms by (auto simp: effect_def keeps_def frame_def top_bottom_args_ok_def NewCall_def)

lemma effect_binary:
  assumes "effect c l c1" and "effect c1 r c'" and "\<not> is_Literal l" and "\<not> is_Literal r"
  shows "effect c (BinaryExpr op l r) c'"
  using assms by (auto simp: effect_def frame_def split: if_splits)

lemma effect_binary_left:
  assumes "effect c l c'" and "\<not> is_Literal l" and "is_Literal r"
  shows "effect c (BinaryExpr op l r) c'"
  using assms literal_quiet [OF assms(3)] by (auto simp: effect_def frame_def split: if_splits)

lemma effect_binary_right:
  assumes "effect c r c'" and "is_Literal l"  and "\<not> is_Literal r"
  shows "effect c (BinaryExpr op l r) c'"
  using assms literal_quiet [OF assms(2)] by (auto simp: effect_def frame_def split: if_splits)

text \<open>The shape of the arguments that each validator accepts, and what it changes.\<close>

lemma compileSymbol_shape:
  "compileSymbol c aw name a = Inr c' \<Longrightarrow> plain a \<and> keeps c c'"
  by (cases a) (auto simp: compileSymbol_def keeps_def frame_def split: if_splits)

lemma compilePercentile_shape:
  assumes "compilePercentile c aw args = Inr c'"
  shows "(\<forall>x \<in> set args. plain x) \<and> keeps c c'"
proof -
  from assms have "length args = 2"
    by (auto simp: compilePercentile_def split: if_splits)
  then obtain a b where args: "args = [a, b]"
    by (auto simp: length_Suc_conv numeral_2_eq_2)
  from assms show ?thesis unfolding args
    by (cases b) (auto simp: compilePercentile_def dest!: compileSymbol_shape)
qed

lemma compileSample_shape:
  assumes "compileSample c aw args = Inr c'"
  shows "(\<forall>x \<in> set args. plain x) \<and> keeps c c'"
proof -
  from assms have "length args = 2"
    by (auto simp: compileSample_def split: if_splits)
  then obtain a b where args: "args = [a, b]"
    by (auto simp: length_Suc_conv numeral_2_eq_2)
  from assms show ?thesis unfolding args
    by (cases b) (auto simp: compileSample_def split: if_splits dest!: compileSymbol_shape)
qed

lemma compileIntegral_shape:
  assumes "compileIntegral c aw args = Inr c'"
  shows "(\<forall>x \<in> set args. plain x) \<and> keeps c c'"
proof -
  have "\<not> (length args > 2 \<or> length args < 1)"
  proof
    assume "length args > 2 \<or> length args < 1"
    with assms show False unfolding compileIntegral_def by (simp only: if_True sum.distinct)
  qed
  then have "length args = 1 \<or> length args = 2"
    by arith
  then consider a where "args = [a]" | a b where "args = [a, b]"
    by (auto simp: length_Suc_conv numeral_2_eq_2)
  then show ?thesis
  proof cases
    case 1
    from assms show ?thesis unfolding 1
      by (auto simp: compileIntegral_def keeps_OnlySelectors dest!: compileSymbol_shape)
  next
    case 2
    from assms show ?thesis unfolding 2
      by (cases b)
         (auto simp: compileIntegral_def keeps_OnlySelectors split: if_splits
               dest!: compileSymbol_shape)
  qed
qed

lemma compileDistinct_shape:
  assumes "compileDistinct c args = Inr c'"
  shows "(\<exists>x. args = [VarRef x]) \<and> c' = c\<lparr>HasDistinct := True, OnlySelectors := False\<rparr>"
proof -
  from assms have "length args = 1"
    by (auto simp: compileDistinct_def split: if_splits)
  then obtain a where args: "args = [a]"
    by (auto simp: length_Suc_conv)
  from assms show ?thesis unfolding args
    by (cases a) (auto simp: compileDistinct_def)
qed

lemma compileFunction_body:
  "compileFunction c aw n [a] =
     (if n \<in> set [''max'', ''min'', ''first'', ''last'', ''count'', ''sum'', ''mean'',
                      ''median'', ''mode'', ''stddev'', ''spread''] then
        (let c1 = (if n \<in> set [''max'', ''min'', ''first'', ''last''] then c
                   else c\<lparr>OnlySelectors := False\<rparr>) in
         if n = ''count'' then
           (case a of
              Call m b \<Rightarrow> (if m = ''distinct'' then compileDistinct c1 b
                           else compileSymbol c1 aw n a)
            | Distinct v \<Rightarrow> compileDistinct c1 [VarRef v]
            | _ \<Rightarrow> compileSymbol c1 aw n a)
         else compileSymbol c1 aw n a)
      else Inl (UndefinedFunction n))"
  unfolding compileFunction_def Let_def NewCall_def
  by (cases a) (simp_all only: nth_Cons_0 list.size length_Cons One_nat_def add_0 expr.case
                  simp_thms if_False if_True refl)

lemma compileFunction_shape:
  assumes "compileFunction c aw n args = Inr c'"
  shows "n \<noteq> ''top'' \<and> n \<noteq> ''bottom'' \<and> n \<noteq> ''distinct''
       \<and> (\<exists>a. args = [a]
             \<and> ((plain a \<and> keeps c c')
                 \<or> (n = ''count''
                     \<and> ((\<exists>x. a = Call ''distinct'' [VarRef x]) \<or> (\<exists>v. a = Distinct v))
                     \<and> keeps (c\<lparr>HasDistinct := True\<rparr>) c')))"
proof -
  define c1 where "c1 = (if n \<in> set [''max'', ''min'', ''first'', ''last''] then c
                         else c\<lparr>OnlySelectors := False\<rparr>)"
  have k1: "keeps c c1" "keeps (c\<lparr>HasDistinct := True\<rparr>) (c1\<lparr>HasDistinct := True, OnlySelectors := False\<rparr>)"
    by (simp_all add: c1_def keeps_def frame_def)
  have mem: "n \<in> set [''max'', ''min'', ''first'', ''last'', ''count'', ''sum'', ''mean'',
                      ''median'', ''mode'', ''stddev'', ''spread'']"
  proof (rule ccontr)
    assume "\<not> ?thesis"
    with assms show False unfolding compileFunction_def by (simp only: if_False sum.distinct)
  qed
  then have names: "n \<noteq> ''top'' \<and> n \<noteq> ''bottom'' \<and> n \<noteq> ''distinct''" by auto
  have len: "length args = 1"
  proof (rule ccontr)
    assume "\<not> ?thesis"
    with assms mem show False unfolding compileFunction_def Let_def
      by (simp only: if_True simp_thms sum.distinct)
  qed
  then obtain a where args: "args = [a]"
    by (auto simp: length_Suc_conv)
  from assms mem have "(let c1 = (if n \<in> set [''max'', ''min'', ''first'', ''last''] then c
                   else c\<lparr>OnlySelectors := False\<rparr>) in
         if n = ''count'' then
           (case a of
              Call m b \<Rightarrow> (if m = ''distinct'' then compileDistinct c1 b
                           else compileSymbol c1 aw n a)
            | Distinct v \<Rightarrow> compileDistinct c1 [VarRef v]
            | _ \<Rightarrow> compileSymbol c1 aw n a)
         else compileSymbol c1 aw n a) = Inr c'"
    unfolding args compileFunction_body by (simp only: if_True)
  then have body: "(if n = ''count'' then
                 (case a of
                    Call m b \<Rightarrow> (if m = ''distinct'' then compileDistinct c1 b
                                 else compileSymbol c1 aw n a)
                  | Distinct v \<Rightarrow> compileDistinct c1 [VarRef v]
                  | _ \<Rightarrow> compileSymbol c1 aw n a)
               else compileSymbol c1 aw n a) = Inr c'"
    unfolding Let_def c1_def [symmetric] .
  have sym: "plain a \<and> keeps c c'" if "compileSymbol c1 aw n a = Inr c'"
    using compileSymbol_shape [OF that] k1(1) by (auto intro: keeps_trans)
  have dis: "(\<exists>x. b = [VarRef x]) \<and> keeps (c\<lparr>HasDistinct := True\<rparr>) c'"
    if "compileDistinct c1 b = Inr c'" for b
    using compileDistinct_shape [OF that] k1(2) by auto
  show ?thesis
  proof (cases "n = ''count''")
    case False
    with body have "compileSymbol c1 aw n a = Inr c'" by simp
    from sym [OF this] names args show ?thesis by simp
  next
    case True
    show ?thesis
    proof (cases a)
      case (Call m b)
      show ?thesis
      proof (cases "m = ''distinct''")
        case True
        with body \<open>n = ''count''\<close> Call have "compileDistinct c1 b = Inr c'" by simp
        from dis [OF this] names args Call True \<open>n = ''count''\<close> show ?thesis by auto
      next
        case False
        with body \<open>n = ''count''\<close> Call have "compileSymbol c1 aw n a = Inr c'" by simp
        from sym [OF this] names args show ?thesis by simp
      qed
    next
      case (Distinct v)
      with body True have "compileDistinct c1 [VarRef v] = Inr c'" by simp
      from dis [OF this] names args Distinct True show ?thesis by auto
    qed (use body True sym names args in \<open>simp_all\<close>)
  qed
qed

lemma compileTopBottom_loop_shape:
  "compileTopBottom_loop c name vs = Inr c' \<Longrightarrow>
     (\<forall>v \<in> set vs. plain v) \<and> frame c c' \<and> FunctionCalls c' = FunctionCalls c
     \<and> HasDistinct c' = HasDistinct c \<and> TopBottomFunction c' = TopBottomFunction c
     \<and> Fields_c c' = Fields_c c
          @ (if HasTarget c then [] else map (\<lambda>a. \<lparr>Expr = a, Alias = []\<rparr>) vs)
     \<and> HasAuxiliaryFields c' = (HasAuxiliaryFields c \<or> (\<not> HasTarget c \<and> vs \<noteq> []))"
proof (induction vs arbitrary: c)
  case Nil
  then show ?case by (simp add: frame_def)
next
  case (Cons v vs)
  show ?case
  proof (cases v)
    case (VarRef r)
    show ?thesis
    proof (cases "HasTarget c")
      case True
      with Cons.prems VarRef have "compileTopBottom_loop c name vs = Inr c'" by simp
      from Cons.IH [OF this] True VarRef show ?thesis by simp
    next
      case False
      let ?c1 = "compileVarRef (c\<lparr>Fields_c := Fields_c c @ [\<lparr>Expr = VarRef r, Alias = []\<rparr>]\<rparr>)"
      from False Cons.prems VarRef have "compileTopBottom_loop ?c1 name vs = Inr c'" by simp
      from Cons.IH [OF this] False VarRef show ?thesis
        by (simp add: compileVarRef_def frame_def)
    qed
  qed (use Cons.prems in simp_all)
qed

lemma compileTopBottom_shape:
  assumes "compileTopBottom c name args = Inr c'"
  shows "TopBottomFunction c = [] \<and> TopBottomFunction c' = name
       \<and> (\<forall>x \<in> set args. plain x) \<and> frame c c'
       \<and> FunctionCalls c' = FunctionCalls c \<and> HasDistinct c' = HasDistinct c
       \<and> Fields_c c' = Fields_c c
            @ (if HasTarget c then []
               else map (\<lambda>a. \<lparr>Expr = a, Alias = []\<rparr>) (take (length args - 2) (drop 1 args)))
       \<and> HasAuxiliaryFields c' = (HasAuxiliaryFields c \<or> (\<not> HasTarget c \<and> 2 < length args))
       \<and> 2 \<le> length args
       \<and> (\<exists>k. args ! (length args - 1) = IntegerLiteral k \<and> 0 < k
                \<and> (0 < Limit_c c \<longrightarrow> k \<le> Limit_c c))"
proof -
  let ?mids = "take (length args - 2) (drop 1 args)"
  from assms have tb: "TopBottomFunction c = []" and len: "2 \<le> length args"
    by (auto simp: compileTopBottom_def split: if_splits)
  from assms tb len obtain k where
    k: "args ! (length args - 1) = IntegerLiteral k"
    by (cases "args ! (length args - 1)") (auto simp: compileTopBottom_def)
  from assms tb len k have pos: "0 < k" "0 < Limit_c c \<longrightarrow> k \<le> Limit_c c"
    by (auto simp: compileTopBottom_def split: if_splits)
  from assms tb len k pos obtain r where r: "args ! 0 = VarRef r"
    by (cases "args ! 0") (auto simp: compileTopBottom_def split: if_splits)
  let ?loop = "if length args > 2 then compileTopBottom_loop c name ?mids else Inr c"
  from assms tb len k pos r obtain c1 where
    c1: "?loop = Inr c1" and c': "c' = c1\<lparr>TopBottomFunction := name\<rparr>"
    by (auto simp: compileTopBottom_def split: if_splits sum.splits)
  have loop: "(\<forall>v \<in> set ?mids. plain v) \<and> frame c c1 \<and> FunctionCalls c1 = FunctionCalls c
        \<and> HasDistinct c1 = HasDistinct c
        \<and> Fields_c c1 = Fields_c c
            @ (if HasTarget c then [] else map (\<lambda>a. \<lparr>Expr = a, Alias = []\<rparr>) ?mids)
        \<and> HasAuxiliaryFields c1 = (HasAuxiliaryFields c \<or> (\<not> HasTarget c \<and> 2 < length args))"
  proof (cases "length args > 2")
    case True
    with c1 have "compileTopBottom_loop c name ?mids = Inr c1" by simp
    from compileTopBottom_loop_shape [OF this] True show ?thesis by auto
  next
    case False
    with c1 len show ?thesis by (simp add: frame_def)
  qed
  have plain: "plain x" if "x \<in> set args" for x
  proof -
    from that obtain i where i: "i < length args" "x = args ! i"
      by (auto simp: in_set_conv_nth)
    consider "i = 0" | "i = length args - 1" | "0 < i" "i < length args - 1"
      using i(1) by linarith
    then show ?thesis
    proof cases
      case 1
      with i r show ?thesis by simp
    next
      case 2
      with i k show ?thesis by simp
    next
      case 3
      then have "?mids ! (i - 1) = args ! i" by simp
      moreover from 3 have "i - 1 < length ?mids" by simp
      ultimately have "x \<in> set ?mids" using i(2) by (metis nth_mem)
      with loop show ?thesis by simp
    qed
  qed
  from loop plain tb len k pos c' show ?thesis by (simp add: frame_def)
qed

lemma effect_top_bottom:
  assumes "compileTopBottom (c\<lparr>FunctionCalls := FunctionCalls c @ [Call n args]\<rparr>) n args = Inr c'"
      and "n = ''top'' \<or> n = ''bottom''"
  shows "effect c (Call n args) c'"
proof -
  note s = compileTopBottom_shape [OF assms(1)]
  from s have p: "\<forall>x \<in> set args. plain x" by simp
  from s assms(2) show ?thesis
    by (auto simp: effect_def frame_def top_bottom_args_ok_def plain_args_quiet [OF p])
qed

text \<open>
  The validators that can call \<open>compileExpr\<close> back: the first argument is a call that
  \<open>compileExpr\<close> compiles, or a field; the other arguments are constants.
\<close>

lemma nested_body:
  assumes "(if isCall a then
              (if z then Inl e1 else compileExpr (c\<lparr>OnlySelectors := False\<rparr>) aw a)
            else
              (if \<not> z then Inl e2
               else with_flag aw (compileSymbol (c\<lparr>OnlySelectors := False\<rparr>) aw name a))) = Inr r"
  shows "(isCall a \<and> compileExpr (c\<lparr>OnlySelectors := False\<rparr>) aw a = Inr r)
       \<or> (plain a \<and> snd r = aw \<and> keeps c (fst r))"
proof (cases "isCall a")
  case True
  with assms show ?thesis by (simp split: if_splits)
next
  case False
  with assms have "with_flag aw (compileSymbol (c\<lparr>OnlySelectors := False\<rparr>) aw name a) = Inr r"
    by (simp split: if_splits)
  then have "snd r = aw" "compileSymbol (c\<lparr>OnlySelectors := False\<rparr>) aw name a = Inr (fst r)"
    by (simp_all add: with_flag_Inr)
  with compileSymbol_shape [OF this(2)] show ?thesis
    by (simp add: keeps_OnlySelectors)
qed

lemma checkDurationArg_plain:
  assumes "checkDurationArg name (a # rest) = None" and "length rest \<le> 1"
  shows "\<forall>x \<in> set rest. plain x"
proof (cases rest)
  case Nil
  then show ?thesis by simp
next
  case (Cons b bs)
  with assms(2) have bs: "bs = []" by simp
  from assms(1) show ?thesis unfolding Cons bs
    by (cases b) (simp_all add: checkDurationArg_def)
qed

lemma compileDerivative_shape:
  assumes "compileDerivative c aw args nn = Inr r"
  shows "\<exists>a rest. args = a # rest \<and> (\<forall>x \<in> set rest. plain x)
           \<and> ((isCall a \<and> compileExpr (c\<lparr>OnlySelectors := False\<rparr>) aw a = Inr r)
               \<or> (plain a \<and> snd r = aw \<and> keeps c (fst r)))"
proof (cases args)
  case Nil
  with assms show ?thesis by (simp add: compileDerivative_Nil)
next
  case (Cons a rest)
  note [simp del] = compileExpr.simps
  from assms have len: "length rest \<le> 1"
    and chk: "checkDurationArg (derivative_name nn) (a # rest) = None"
    unfolding Cons compileDerivative_Cons by (auto split: if_splits option.splits)
  with assms have "(if isCall a then
             (if IsZero (Interval_c c) then Inl (RequiresGroupByInterval (derivative_name nn))
              else compileExpr (c\<lparr>OnlySelectors := False\<rparr>) aw a)
           else
             (if \<not> IsZero (Interval_c c) then Inl (AggregateFunctionRequired (derivative_name nn))
              else with_flag aw (compileSymbol (c\<lparr>OnlySelectors := False\<rparr>) aw (derivative_name nn) a))) = Inr r"
    unfolding Cons compileDerivative_Cons by simp
  from nested_body [OF this] checkDurationArg_plain [OF chk len] Cons show ?thesis by simp
qed

lemma compileElapsed_Cons:
  "compileElapsed c aw (a # rest) =
     (if length rest > 1 then Inl (InvalidNumberOfArguments ''elapsed'')
      else case checkDurationArg ''elapsed'' (a # rest) of
        Some e \<Rightarrow> Inl e
      | None \<Rightarrow>
          (if isCall a then
             (if IsZero (Interval_c c) then Inl (RequiresGroupByInterval ''elapsed'')
              else compileExpr (c\<lparr>OnlySelectors := False\<rparr>) aw a)
           else
             (if \<not> IsZero (Interval_c c) then Inl (AggregateFunctionRequired ''elapsed'')
              else with_flag aw (compileSymbol (c\<lparr>OnlySelectors := False\<rparr>) aw ''elapsed'' a))))"
  by (cases a) (simp_all add: Let_def isCall_def IsZero_def split: option.splits)

lemma compileElapsed_shape:
  assumes "compileElapsed c aw args = Inr r"
  shows "\<exists>a rest. args = a # rest \<and> (\<forall>x \<in> set rest. plain x)
           \<and> ((isCall a \<and> compileExpr (c\<lparr>OnlySelectors := False\<rparr>) aw a = Inr r)
               \<or> (plain a \<and> snd r = aw \<and> keeps c (fst r)))"
proof (cases args)
  case Nil
  with assms show ?thesis by simp
next
  case (Cons a rest)
  note [simp del] = compileExpr.simps
  from assms have len: "length rest \<le> 1"
    and chk: "checkDurationArg ''elapsed'' (a # rest) = None"
    unfolding Cons compileElapsed_Cons by (auto split: if_splits option.splits)
  with assms have "(if isCall a then
             (if IsZero (Interval_c c) then Inl (RequiresGroupByInterval ''elapsed'')
              else compileExpr (c\<lparr>OnlySelectors := False\<rparr>) aw a)
           else
             (if \<not> IsZero (Interval_c c) then Inl (AggregateFunctionRequired ''elapsed'')
              else with_flag aw (compileSymbol (c\<lparr>OnlySelectors := False\<rparr>) aw ''elapsed'' a))) = Inr r"
    unfolding Cons compileElapsed_Cons by simp
  from nested_body [OF this] checkDurationArg_plain [OF chk len] Cons show ?thesis by simp
qed

lemma compileDifference_Cons:
  "compileDifference c aw (a # rest) nn =
     (if rest \<noteq> [] then Inl (InvalidNumberOfArguments (if nn then ''non_negative_difference'' else ''difference''))
      else
          (if isCall a then
             (if IsZero (Interval_c c) then Inl (RequiresGroupByInterval (if nn then ''non_negative_difference'' else ''difference''))
              else compileExpr (c\<lparr>OnlySelectors := False\<rparr>) aw a)
           else
             (if \<not> IsZero (Interval_c c) then Inl (AggregateFunctionRequired (if nn then ''non_negative_difference'' else ''difference''))
              else with_flag aw (compileSymbol (c\<lparr>OnlySelectors := False\<rparr>) aw (if nn then ''non_negative_difference'' else ''difference'') a))))"
  by (cases a) (simp_all add: Let_def isCall_def IsZero_def split: option.splits)

lemma compileDifference_shape:
  assumes "compileDifference c aw args nn = Inr r"
  shows "\<exists>a rest. args = a # rest \<and> (\<forall>x \<in> set rest. plain x)
           \<and> ((isCall a \<and> compileExpr (c\<lparr>OnlySelectors := False\<rparr>) aw a = Inr r)
               \<or> (plain a \<and> snd r = aw \<and> keeps c (fst r)))"
proof (cases args)
  case Nil
  with assms show ?thesis by simp
next
  case (Cons a rest)
  note [simp del] = compileExpr.simps
  from assms have rest: "rest = []"
    unfolding Cons compileDifference_Cons by (auto split: if_splits)
  with assms have "(if isCall a then
             (if IsZero (Interval_c c) then Inl (RequiresGroupByInterval (if nn then ''non_negative_difference'' else ''difference''))
              else compileExpr (c\<lparr>OnlySelectors := False\<rparr>) aw a)
           else
             (if \<not> IsZero (Interval_c c) then Inl (AggregateFunctionRequired (if nn then ''non_negative_difference'' else ''difference''))
              else with_flag aw (compileSymbol (c\<lparr>OnlySelectors := False\<rparr>) aw (if nn then ''non_negative_difference'' else ''difference'') a))) = Inr r"
    unfolding Cons compileDifference_Cons by simp
  from nested_body [OF this] rest Cons show ?thesis by simp
qed

lemma compileCumulativeSum_Cons:
  "compileCumulativeSum c aw (a # rest) =
     (if rest \<noteq> [] then Inl (InvalidNumberOfArguments ''cumulative_sum'')
      else
          (if isCall a then
             (if IsZero (Interval_c c) then Inl (RequiresGroupByInterval ''cumulative_sum'')
              else compileExpr (c\<lparr>OnlySelectors := False\<rparr>) aw a)
           else
             (if \<not> IsZero (Interval_c c) then Inl (AggregateFunctionRequired ''cumulative_sum'')
              else with_flag aw (compileSymbol (c\<lparr>OnlySelectors := False\<rparr>) aw ''cumulative_sum'' a))))"
  by (cases a) (simp_all add: Let_def isCall_def IsZero_def split: option.splits)

lemma compileCumulativeSum_shape:
  assumes "compileCumulativeSum c aw args = Inr r"
  shows "\<exists>a rest. args = a # rest \<and> (\<forall>x \<in> set rest. plain x)
           \<and> ((isCall a \<and> compileExpr (c\<lparr>OnlySelectors := False\<rparr>) aw a = Inr r)
               \<or> (plain a \<and> snd r = aw \<and> keeps c (fst r)))"
proof (cases args)
  case Nil
  with assms show ?thesis by simp
next
  case (Cons a rest)
  note [simp del] = compileExpr.simps
  from assms have rest: "rest = []"
    unfolding Cons compileCumulativeSum_Cons by (auto split: if_splits)
  with assms have "(if isCall a then
             (if IsZero (Interval_c c) then Inl (RequiresGroupByInterval ''cumulative_sum'')
              else compileExpr (c\<lparr>OnlySelectors := False\<rparr>) aw a)
           else
             (if \<not> IsZero (Interval_c c) then Inl (AggregateFunctionRequired ''cumulative_sum'')
              else with_flag aw (compileSymbol (c\<lparr>OnlySelectors := False\<rparr>) aw ''cumulative_sum'' a))) = Inr r"
    unfolding Cons compileCumulativeSum_Cons by simp
  from nested_body [OF this] rest Cons show ?thesis by simp
qed

lemma compileMovingAverage_Cons:
  "compileMovingAverage c aw (a # rest) =
     (if length rest \<noteq> 1 then Inl (InvalidNumberOfArguments ''moving_average'')
      else case (case rest ! 0 of
                   IntegerLiteral v \<Rightarrow> (if v \<le> 1 then Some (MovingAverageWindowTooSmall v) else None)
                 | _ \<Rightarrow> Some (SecondArgumentMustBeInteger ''moving_average'')) of
        Some e \<Rightarrow> Inl e
      | None \<Rightarrow>
          (if isCall a then
             (if IsZero (Interval_c c) then Inl (RequiresGroupByInterval ''moving_average'')
              else compileExpr (c\<lparr>OnlySelectors := False\<rparr>) aw a)
           else
             (if \<not> IsZero (Interval_c c) then Inl (AggregateFunctionRequired ''moving_average'')
              else with_flag aw (compileSymbol (c\<lparr>OnlySelectors := False\<rparr>) aw ''moving_average'' a))))"
  by (cases a) (simp_all add: Let_def isCall_def IsZero_def split: option.splits)

lemma compileMovingAverage_shape:
  assumes "compileMovingAverage c aw args = Inr r"
  shows "\<exists>a rest. args = a # rest \<and> (\<forall>x \<in> set rest. plain x)
           \<and> ((isCall a \<and> compileExpr (c\<lparr>OnlySelectors := False\<rparr>) aw a = Inr r)
               \<or> (plain a \<and> snd r = aw \<and> keeps c (fst r)))"
proof (cases args)
  case Nil
  with assms show ?thesis by simp
next
  case (Cons a rest)
  note [simp del] = compileExpr.simps
  from assms have "length rest = 1"
    unfolding Cons compileMovingAverage_Cons by (auto split: if_splits)
  then obtain b where rest: "rest = [b]"
    by (auto simp: length_Suc_conv)
  from assms obtain v where b: "b = IntegerLiteral v"
    unfolding Cons compileMovingAverage_Cons rest by (cases b) simp_all
  from assms have "(if isCall a then
             (if IsZero (Interval_c c) then Inl (RequiresGroupByInterval ''moving_average'')
              else compileExpr (c\<lparr>OnlySelectors := False\<rparr>) aw a)
           else
             (if \<not> IsZero (Interval_c c) then Inl (AggregateFunctionRequired ''moving_average'')
              else with_flag aw (compileSymbol (c\<lparr>OnlySelectors := False\<rparr>) aw ''moving_average'' a))) = Inr r"
    unfolding Cons compileMovingAverage_Cons rest b by (simp split: if_splits)
  from nested_body [OF this] rest b Cons show ?thesis by simp
qed

lemma compileHoltWinters_shape:
  assumes "compileHoltWinters c aw args fit = Inr r"
  shows "\<exists>a rest. args = a # rest \<and> (\<forall>x \<in> set rest. plain x)
           \<and> isCall a \<and> compileExpr (c\<lparr>OnlySelectors := False\<rparr>) aw a = Inr r"
proof -
  note [simp del] = compileExpr.simps
  from assms have "length args = 3"
    by (simp add: Let_def split: if_splits)
  then obtain a b d where args: "args = [a, b, d]"
    by (auto simp: length_Suc_conv numeral_3_eq_3)
  from assms obtain v where b: "b = IntegerLiteral v"
    unfolding args by (cases b) (simp_all add: Let_def)
  from assms obtain w where d: "d = IntegerLiteral w"
    unfolding args b by (cases d) (simp_all add: Let_def split: if_splits)
  from assms have body: "(case a of
                  Call x y \<Rightarrow>
                    if IsZero (Interval_c (c\<lparr>OnlySelectors := False\<rparr>))
                    then Inl (RequiresGroupByInterval
                                (if fit then ''holt_winters_with_fit'' else ''holt_winters''))
                    else compileExpr (c\<lparr>OnlySelectors := False\<rparr>) aw a
                | _ \<Rightarrow> Inl (MustUseAggregateFunction
                                (if fit then ''holt_winters_with_fit'' else ''holt_winters''))) = Inr r"
    unfolding args b d by (simp add: Let_def split: if_splits)
  from body have "isCall a \<and> compileExpr (c\<lparr>OnlySelectors := False\<rparr>) aw a = Inr r"
    by (cases a) (simp_all add: isCall_def split: if_splits)
  with args b d show ?thesis by simp
qed

lemma effect_nested_shape:
  assumes shape: "\<exists>a rest. args = a # rest \<and> (\<forall>x \<in> set rest. plain x)
           \<and> ((isCall a
                \<and> compileExpr (c\<lparr>FunctionCalls := FunctionCalls c @ [Call n args],
                                 OnlySelectors := False\<rparr>) aw a = Inr r)
               \<or> (plain a \<and> snd r = aw
                   \<and> keeps (c\<lparr>FunctionCalls := FunctionCalls c @ [Call n args]\<rparr>) (fst r)))"
      and IH: "\<And>a c aw r. a \<in> set args \<Longrightarrow> compileExpr c aw a = Inr r \<Longrightarrow> effect c a (fst r)"
      and names: "n \<noteq> ''top''" "n \<noteq> ''bottom''" "n \<noteq> ''distinct''" "n \<noteq> ''count''"
  shows "effect c (Call n args) (fst r)"
proof -
  from shape obtain a rest where args: "args = a # rest" and rest: "\<forall>x \<in> set rest. plain x"
    and alt: "(isCall a
                \<and> compileExpr (c\<lparr>FunctionCalls := FunctionCalls c @ [Call n args],
                                 OnlySelectors := False\<rparr>) aw a = Inr r)
               \<or> (plain a \<and> snd r = aw
                   \<and> keeps (c\<lparr>FunctionCalls := FunctionCalls c @ [Call n args]\<rparr>) (fst r))"
    by blast
  from alt show ?thesis
  proof
    assume a: "isCall a
                \<and> compileExpr (c\<lparr>FunctionCalls := FunctionCalls c @ [Call n args],
                                 OnlySelectors := False\<rparr>) aw a = Inr r"
    have "a \<in> set args" by (simp add: args)
    from IH [OF this conjunct2 [OF a]]
    have "effect (c\<lparr>FunctionCalls := FunctionCalls c @ [Call n (a # rest)]\<rparr>) a (fst r)"
      by (simp add: effect_OnlySelectors args)
    from effect_call_nested [OF this conjunct1 [OF a] rest names] show ?thesis
      by (simp add: args)
  next
    assume p: "plain a \<and> snd r = aw
                   \<and> keeps (c\<lparr>FunctionCalls := FunctionCalls c @ [Call n args]\<rparr>) (fst r)"
    with rest have "\<forall>x \<in> set args. plain x" by (simp add: args)
    from effect_call_plain [OF _ this names(1-3)] p show ?thesis by simp
  qed
qed

text \<open>
  The compilation of an expression, when it succeeds, does to the statement what the
  text of the expression says.
\<close>

lemma compileExpr_effect:
  "compileExpr c aw e = Inr r \<Longrightarrow> effect c e (fst r)"
proof (induction e arbitrary: c aw r)
  case (VarRef v)
  then show ?case by (auto simp: compileVarRef_def effect_def frame_def)
next
  case Wildcard
  then show ?case by (auto simp: effect_def frame_def Let_def split: if_splits)
next
  case (RegexLiteral x)
  then show ?case by (auto simp: effect_def frame_def split: if_splits)
next
  case (Call n args)
  note IH = Call.IH
  note prem = Call.prems
  let ?c1 = "c\<lparr>FunctionCalls := FunctionCalls c @ [Call n args]\<rparr>"
  note [simp del] = compileDerivative.simps compileElapsed.simps compileDifference.simps
                compileCumulativeSum.simps compileMovingAverage.simps compileHoltWinters.simps
  consider (k0) "n = ''percentile''" | (k1) "n = ''sample''" | (k2) "n = ''distinct''" | (k3) "n = ''top''" | (k4) "n = ''bottom''" | (k5) "n = ''derivative''" | (k6) "n = ''non_negative_derivative''" | (k7) "n = ''difference''" | (k8) "n = ''non_negative_difference''" | (k9) "n = ''cumulative_sum''" | (k10) "n = ''moving_average''" | (k11) "n = ''elapsed''" | (k12) "n = ''integral''" | (k13) "n = ''holt_winters''" | (k14) "n = ''holt_winters_with_fit''"
    | (other) "n \<noteq> ''percentile'' \<and> n \<noteq> ''sample'' \<and> n \<noteq> ''distinct'' \<and> n \<noteq> ''top'' \<and> n \<noteq> ''bottom'' \<and> n \<noteq> ''derivative'' \<and> n \<noteq> ''non_negative_derivative'' \<and> n \<noteq> ''difference'' \<and> n \<noteq> ''non_negative_difference'' \<and> n \<noteq> ''cumulative_sum'' \<and> n \<noteq> ''moving_average'' \<and> n \<noteq> ''elapsed'' \<and> n \<noteq> ''integral'' \<and> n \<noteq> ''holt_winters'' \<and> n \<noteq> ''holt_winters_with_fit''"
    by blast
  then show ?case
  proof cases
    case k0
    with prem have "snd r = aw \<and> compilePercentile ?c1 aw args = Inr (fst r)"
      by (simp add: Let_def with_flag_Inr)
    then have v: "compilePercentile ?c1 aw args = Inr (fst r)" by simp
    from compilePercentile_shape [OF v] k0 show ?thesis
      by (auto intro!: effect_call_plain)
  next
    case k1
    with prem have "snd r = aw \<and> compileSample ?c1 aw args = Inr (fst r)"
      by (simp add: Let_def with_flag_Inr)
    then have v: "compileSample ?c1 aw args = Inr (fst r)" by simp
    from compileSample_shape [OF v] k1 show ?thesis
      by (auto intro!: effect_call_plain)
  next
    case k2
    with prem have "snd r = aw \<and> compileDistinct ?c1 args = Inr (fst r)"
      by (simp add: Let_def with_flag_Inr)
    then have v: "compileDistinct ?c1 args = Inr (fst r)" by simp
    from compileDistinct_shape [OF v] obtain x where
      "args = [VarRef x]" "fst r = ?c1\<lparr>HasDistinct := True, OnlySelectors := False\<rparr>"
      by blast
    with k2 show ?thesis
      by (auto intro!: effect_distinct(1) simp: keeps_def frame_def)
  next
    case k3
    with prem have "snd r = aw \<and> compileTopBottom ?c1 n args = Inr (fst r)"
      by (simp add: Let_def with_flag_Inr)
    then have v: "compileTopBottom ?c1 n args = Inr (fst r)" by simp
    from effect_top_bottom [OF v] k3 show ?thesis by simp
  next
    case k4
    with prem have "snd r = aw \<and> compileTopBottom ?c1 n args = Inr (fst r)"
      by (simp add: Let_def with_flag_Inr)
    then have v: "compileTopBottom ?c1 n args = Inr (fst r)" by simp
    from effect_top_bottom [OF v] k4 show ?thesis by simp
  next
    case k5
    with prem have v: "compileDerivative ?c1 aw args False = Inr r"
      by (simp add: Let_def with_flag_Inr)
    have "\<exists>a rest. args = a # rest \<and> (\<forall>x \<in> set rest. plain x)
           \<and> ((isCall a
                \<and> compileExpr (c\<lparr>FunctionCalls := FunctionCalls c @ [Call n args],
                                 OnlySelectors := False\<rparr>) aw a = Inr r)
               \<or> (plain a \<and> snd r = aw
                   \<and> keeps (c\<lparr>FunctionCalls := FunctionCalls c @ [Call n args]\<rparr>) (fst r)))"
      using compileDerivative_shape [OF v] by blast
    from effect_nested_shape [OF this IH] k5 show ?thesis by simp
  next
    case k6
    with prem have v: "compileDerivative ?c1 aw args True = Inr r"
      by (simp add: Let_def with_flag_Inr)
    have "\<exists>a rest. args = a # rest \<and> (\<forall>x \<in> set rest. plain x)
           \<and> ((isCall a
                \<and> compileExpr (c\<lparr>FunctionCalls := FunctionCalls c @ [Call n args],
                                 OnlySelectors := False\<rparr>) aw a = Inr r)
               \<or> (plain a \<and> snd r = aw
                   \<and> keeps (c\<lparr>FunctionCalls := FunctionCalls c @ [Call n args]\<rparr>) (fst r)))"
      using compileDerivative_shape [OF v] by blast
    from effect_nested_shape [OF this IH] k6 show ?thesis by simp
  next
    case k7
    with prem have v: "compileDifference ?c1 aw args False = Inr r"
      by (simp add: Let_def with_flag_Inr)
    have "\<exists>a rest. args = a # rest \<and> (\<forall>x \<in> set rest. plain x)
           \<and> ((isCall a
                \<and> compileExpr (c\<lparr>FunctionCalls := FunctionCalls c @ [Call n args],
                                 OnlySelectors := False\<rparr>) aw a = Inr r)
               \<or> (plain a \<and> snd r = aw
                   \<and> keeps (c\<lparr>FunctionCalls := FunctionCalls c @ [Call n args]\<rparr>) (fst r)))"
      using compileDifference_shape [OF v] by blast
    from effect_nested_shape [OF this IH] k7 show ?thesis by simp
  next
    case k8
    with prem have v: "compileDifference ?c1 aw args True = Inr r"
      by (simp add: Let_def with_flag_Inr)
    have "\<exists>a rest. args = a # rest \<and> (\<forall>x \<in> set rest. plain x)
           \<and> ((isCall a
                \<and> compileExpr (c\<lparr>FunctionCalls := FunctionCalls c @ [Call n args],
                                 OnlySelectors := False\<rparr>) aw a = Inr r)
               \<or> (plain a \<and> snd r = aw
                   \<and> keeps (c\<lparr>FunctionCalls := FunctionCalls c @ [Call n args]\<rparr>) (fst r)))"
      using compileDifference_shape [OF v] by blast
    from effect_nested_shape [OF this IH] k8 show ?thesis by simp
  next
    case k9
    with prem have v: "compileCumulativeSum ?c1 aw args = Inr r"
      by (simp add: Let_def with_flag_Inr)
    have "\<exists>a rest. args = a # rest \<and> (\<forall>x \<in> set rest. plain x)
           \<and> ((isCall a
                \<and> compileExpr (c\<lparr>FunctionCalls := FunctionCalls c @ [Call n args],
                                 OnlySelectors := False\<rparr>) aw a = Inr r)
               \<or> (plain a \<and> snd r = aw
                   \<and> keeps (c\<lparr>FunctionCalls := FunctionCalls c @ [Call n args]\<rparr>) (fst r)))"
      using compileCumulativeSum_shape [OF v] by blast
    from effect_nested_shape [OF this IH] k9 show ?thesis by simp
  next
    case k10
    with prem have v: "compileMovingAverage ?c1 aw args = Inr r"
      by (simp add: Let_def with_flag_Inr)
    have "\<exists>a rest. args = a # rest \<and> (\<forall>x \<in> set rest. plain x)
           \<and> ((isCall a
                \<and> compileExpr (c\<lparr>FunctionCalls := FunctionCalls c @ [Call n args],
                                 OnlySelectors := False\<rparr>) aw a = Inr r)
               \<or> (plain a \<and> snd r = aw
                   \<and> keeps (c\<lparr>FunctionCalls := FunctionCalls c @ [Call n args]\<rparr>) (fst r)))"
      using compileMovingAverage_shape [OF v] by blast
    from effect_nested_shape [OF this IH] k10 show ?thesis by simp
  next
    case k11
    with prem have v: "compileElapsed ?c1 aw args = Inr r"
      by (simp add: Let_def with_flag_Inr)
    have "\<exists>a rest. args = a # rest \<and> (\<forall>x \<in> set rest. plain x)
           \<and> ((isCall a
                \<and> compileExpr (c\<lparr>FunctionCalls := FunctionCalls c @ [Call n args],
                                 OnlySelectors := False\<rparr>) aw a = Inr r)
               \<or> (plain a \<and> snd r = aw
                   \<and> keeps (c\<lparr>FunctionCalls := FunctionCalls c @ [Call n args]\<rparr>) (fst r)))"
      using compileElapsed_shape [OF v] by blast
    from effect_nested_shape [OF this IH] k11 show ?thesis by simp
  next
    case k12
    with prem have "snd r = aw \<and> compileIntegral ?c1 aw args = Inr (fst r)"
      by (simp add: Let_def with_flag_Inr)
    then have v: "compileIntegral ?c1 aw args = Inr (fst r)" by simp
    from compileIntegral_shape [OF v] k12 show ?thesis
      by (auto intro!: effect_call_plain)
  next
    case k13
    with prem have v: "compileHoltWinters ?c1 aw args False = Inr r"
      by (simp add: Let_def with_flag_Inr)
    have "\<exists>a rest. args = a # rest \<and> (\<forall>x \<in> set rest. plain x)
           \<and> ((isCall a
                \<and> compileExpr (c\<lparr>FunctionCalls := FunctionCalls c @ [Call n args],
                                 OnlySelectors := False\<rparr>) aw a = Inr r)
               \<or> (plain a \<and> snd r = aw
                   \<and> keeps (c\<lparr>FunctionCalls := FunctionCalls c @ [Call n args]\<rparr>) (fst r)))"
      using compileHoltWinters_shape [OF v] by blast
    from effect_nested_shape [OF this IH] k13 show ?thesis by simp
  next
    case k14
    with prem have v: "compileHoltWinters ?c1 aw args True = Inr r"
      by (simp add: Let_def with_flag_Inr)
    have "\<exists>a rest. args = a # rest \<and> (\<forall>x \<in> set rest. plain x)
           \<and> ((isCall a
                \<and> compileExpr (c\<lparr>FunctionCalls := FunctionCalls c @ [Call n args],
                                 OnlySelectors := False\<rparr>) aw a = Inr r)
               \<or> (plain a \<and> snd r = aw
                   \<and> keeps (c\<lparr>FunctionCalls := FunctionCalls c @ [Call n args]\<rparr>) (fst r)))"
      using compileHoltWinters_shape [OF v] by blast
    from effect_nested_shape [OF this IH] k14 show ?thesis by simp
  next
    case other
    with prem have "snd r = aw \<and> compileFunction ?c1 aw n args = Inr (fst r)"
      by (simp add: Let_def with_flag_Inr)
    then have v: "compileFunction ?c1 aw n args = Inr (fst r)" by simp
    from compileFunction_shape [OF v] obtain a where args: "args = [a]"
      and alt: "(plain a \<and> keeps ?c1 (fst r))
                 \<or> (n = ''count''
                     \<and> ((\<exists>x. a = Call ''distinct'' [VarRef x]) \<or> (\<exists>v. a = Distinct v))
                     \<and> keeps (?c1\<lparr>HasDistinct := True\<rparr>) (fst r))"
      by blast
    from alt show ?thesis
    proof
      assume "plain a \<and> keeps ?c1 (fst r)"
      with other args show ?thesis
        by (auto intro!: effect_call_plain)
    next
      assume h: "n = ''count''
                     \<and> ((\<exists>x. a = Call ''distinct'' [VarRef x]) \<or> (\<exists>v. a = Distinct v))
                     \<and> keeps (?c1\<lparr>HasDistinct := True\<rparr>) (fst r)"
      then have n: "n = ''count''"
        and d: "(\<exists>x. a = Call ''distinct'' [VarRef x]) \<or> (\<exists>v. a = Distinct v)"
        by simp_all
      from h have "keeps (?c1\<lparr>HasDistinct := True\<rparr>) (fst r)"
        by (elim conjE)
      then have k: "keeps (c\<lparr>FunctionCalls := FunctionCalls c @ [Call ''count'' [a]],
                               HasDistinct := True\<rparr>) (fst r)"
        unfolding n args .
      from effect_count_distinct [OF k d] show ?thesis by (simp add: n args)
    qed
  qed
next
  case (Distinct v)
  then have "compileDistinct (c\<lparr>FunctionCalls := FunctionCalls c @ [Call ''distinct'' [VarRef v]]\<rparr>)
               [VarRef v] = Inr (fst r)"
    by (simp add: NewCall_def with_flag_Inr)
  from compileDistinct_shape [OF this] show ?case
    by (auto intro!: effect_distinct(2) simp: keeps_def frame_def)
next
  case (BinaryExpr op lhs rhs)
  note prem = BinaryExpr.prems
  show ?case
  proof (cases "is_Literal lhs")
    case True
    with prem have nl: "\<not> is_Literal rhs" and "compileExpr c False rhs = Inr r"
      by (auto split: if_splits)
    from BinaryExpr.IH(2) [OF this(2)] True nl show ?thesis
      by (rule effect_binary_right)
  next
    case False
    show ?thesis
    proof (cases "is_Literal rhs")
      case True
      with prem False have "compileExpr c False lhs = Inr r" by simp
      from BinaryExpr.IH(1) [OF this] False True show ?thesis
        by (rule effect_binary_left)
    next
      case nr: False
      with prem False obtain c1 aw1 where
        l: "compileExpr c False lhs = Inr (c1, aw1)" and r: "compileExpr c1 aw1 rhs = Inr r"
        by (auto split: sum.splits)
      from BinaryExpr.IH(1) [OF l] have "effect c lhs c1" by simp
      from this BinaryExpr.IH(2) [OF r] False nr show ?thesis
        by (rule effect_binary)
    qed
  qed
next
  case (ParenExpr e)
  from ParenExpr.prems have "compileExpr c aw e = Inr r" by simp
  from ParenExpr.IH [OF this] show ?case by (simp add: effect_def)
qed simp_all

section \<open>The selected fields of a statement\<close>

lemma compileFields_loop_step:
  assumes "\<not> is_time_field f" and "compileFields_loop c (f # fs) = Inr c'"
  obtains c2 aw2 where
    "compileExpr (c\<lparr>Fields_c := Fields_c c @ [f]\<rparr>) True (Expr f) = Inr (c2, aw2)"
    and "compileFields_loop c2 fs = Inr c'"
  using assms by (auto split: sum.splits)

lemma compileFields_loop_time_name:
  "compileFields_loop c fs = Inr c' \<Longrightarrow>
     TimeFieldName c' = time_field_name (TimeFieldName c) fs"
proof (induction fs arbitrary: c)
  case Nil
  then show ?case by (simp add: time_field_name_def)
next
  case (Cons f fs)
  show ?case
  proof (cases "is_time_field f")
    case True
    let ?c1 = "if Alias f \<noteq> [] then c\<lparr>TimeFieldName := Alias f\<rparr> else c"
    from True Cons.prems have "compileFields_loop ?c1 fs = Inr c'" by simp
    from Cons.IH [OF this] True show ?thesis
      by (simp add: time_field_name_def split: list.splits)
  next
    case False
    from compileFields_loop_step [OF False Cons.prems] obtain c2 aw2 where
      e: "compileExpr (c\<lparr>Fields_c := Fields_c c @ [f]\<rparr>) True (Expr f) = Inr (c2, aw2)"
      and l: "compileFields_loop c2 fs = Inr c'"
      by blast
    from compileExpr_effect [OF e] have "TimeFieldName c2 = TimeFieldName c"
      by (simp add: effect_def frame_def)
    with Cons.IH [OF l] False show ?thesis
      by (simp add: time_field_name_def)
  qed
qed

lemma compileFields_loop_effect:
  "compileFields_loop c fs = Inr c' \<Longrightarrow>
     HasTarget c' = HasTarget c \<and> Limit_c c' = Limit_c c
     \<and> FunctionCalls c' = FunctionCalls c
          @ concat (map (\<lambda>f. calls_of (Expr f)) (filter (\<lambda>f. \<not> is_time_field f) fs))
     \<and> HasDistinct c' = (HasDistinct c
          \<or> list_ex (\<lambda>f. uses_distinct (Expr f)) (filter (\<lambda>f. \<not> is_time_field f) fs))
     \<and> HasAuxiliaryFields c' = (HasAuxiliaryFields c
          \<or> list_ex (\<lambda>f. aux_of (HasTarget c) (Expr f)) (filter (\<lambda>f. \<not> is_time_field f) fs))
     \<and> Fields_c c' = Fields_c c
          @ concat (map (\<lambda>f. f # extra_fields (HasTarget c) (Expr f))
                      (filter (\<lambda>f. \<not> is_time_field f) fs))
     \<and> (if list_ex (\<lambda>f. uses_top_bottom (Expr f)) (filter (\<lambda>f. \<not> is_time_field f) fs)
         then TopBottomFunction c = [] \<and> TopBottomFunction c' \<noteq> []
         else TopBottomFunction c' = TopBottomFunction c)
     \<and> list_all (top_bottom_args_ok (Limit_c c))
          (concat (map (\<lambda>f. calls_of (Expr f)) (filter (\<lambda>f. \<not> is_time_field f) fs)))"
proof (induction fs arbitrary: c)
  case Nil
  then show ?case by simp
next
  case (Cons f fs)
  show ?case
  proof (cases "is_time_field f")
    case True
    let ?c1 = "if Alias f \<noteq> [] then c\<lparr>TimeFieldName := Alias f\<rparr> else c"
    from True Cons.prems have "compileFields_loop ?c1 fs = Inr c'" by simp
    from Cons.IH [OF this] True show ?thesis
      by (cases "Alias f = []") (auto split: if_splits)
  next
    case False
    from compileFields_loop_step [OF False Cons.prems] obtain c2 aw2 where
      e: "compileExpr (c\<lparr>Fields_c := Fields_c c @ [f]\<rparr>) True (Expr f) = Inr (c2, aw2)"
      and l: "compileFields_loop c2 fs = Inr c'"
      by blast
    from compileExpr_effect [OF e]
    have e2: "effect (c\<lparr>Fields_c := Fields_c c @ [f]\<rparr>) (Expr f) c2" by simp
    from e2 have same: "HasTarget c2 = HasTarget c" "Limit_c c2 = Limit_c c"
      by (simp_all add: effect_def frame_def)
    note ih = Cons.IH [OF l, unfolded same]
    from e2 ih False show ?thesis
      by (auto simp: effect_def frame_def split: if_splits)
  qed
qed

lemma compileFields_effect:
  assumes "compileFields c stmt = Inr c'"
  shows "HasTarget c' = HasTarget c \<and> Limit_c c' = Limit_c c
     \<and> FunctionCalls c' = FunctionCalls c @ selected_calls stmt
     \<and> HasDistinct c' = (HasDistinct c \<or> selects_distinct stmt)
     \<and> HasAuxiliaryFields c' = (HasAuxiliaryFields c \<or> selects_auxiliary (HasTarget c) stmt)
     \<and> Fields_c c' = selected_fields (HasTarget c) stmt
     \<and> (if selects_top_bottom stmt
         then TopBottomFunction c = [] \<and> TopBottomFunction c' \<noteq> []
         else TopBottomFunction c' = TopBottomFunction c)
     \<and> list_all (top_bottom_args_ok (Limit_c c)) (selected_calls stmt)
     \<and> TimeFieldName c' = time_field_name (TimeFieldName c) (Fields stmt)"
proof -
  from assms have l: "compileFields_loop (c\<lparr>Fields_c := []\<rparr>) (Fields stmt) = Inr c'"
    by (simp add: compileFields_def)
  from compileFields_loop_effect [OF l] compileFields_loop_time_name [OF l]
  show ?thesis
    by (auto simp: selected_def selected_calls_def selects_distinct_def selects_auxiliary_def
          selected_fields_def selects_top_bottom_def split: if_splits)
qed

lemma selected_fields_Nil: "selected_fields ht stmt = [] \<longleftrightarrow> selected stmt = []"
  by (cases "selected stmt") (simp_all add: selected_fields_def)

lemma compile_unfold:
  "compile ext c stmt =
     (case compileFields c stmt of
        Inl e \<Rightarrow> Inl e
      | Inr c1 \<Rightarrow>
         (case validateFields c1 of
            Some e \<Rightarrow> Inl e
          | None \<Rightarrow>
             (case compile_sources ext c1 (Sources stmt) of
                Some e \<Rightarrow> Inl e
              | None \<Rightarrow> Inr c1)))"
  by (cases stmt) (simp split: sum.splits option.splits)

text \<open>\<open>preprocess\<close> leaves the statement of \<open>newCompiler\<close> without calls, flags or marker.\<close>

lemma compileOffset_fresh:
  "compileOffset ext c e = Inr c' \<Longrightarrow>
     fresh c' = fresh c \<and> frame c c' \<and> Fields_c c' = Fields_c c"
  by (cases e) (auto simp: Let_def fresh_def frame_def split: if_splits sum.splits)

lemma compileDimension_fresh:
  "compileDimension ext c d = Inr c' \<Longrightarrow>
     fresh c' = fresh c \<and> frame c c' \<and> Fields_c c' = Fields_c c"
  by (cases d)
     (auto simp: Let_def fresh_def frame_def split: if_splits expr.splits
           dest!: compileOffset_fresh)

lemma compileDimensions_loop_fresh:
  "compileDimensions_loop ext c ds = Inr c' \<Longrightarrow>
     fresh c' = fresh c \<and> frame c c' \<and> Fields_c c' = Fields_c c"
proof (induction ds arbitrary: c)
  case Nil
  then show ?case by (simp add: frame_def)
next
  case (Cons d ds)
  from Cons.prems obtain c1 where
    c1: "compileDimension ext c d = Inr c1" and rest: "compileDimensions_loop ext c1 ds = Inr c'"
    by (auto split: sum.splits)
  from compileDimension_fresh [OF c1] Cons.IH [OF rest] show ?case
    by (simp add: frame_def)
qed

lemma preprocess_fresh:
  assumes "preprocess ext (newCompiler ext opt) stmt = Inr c"
  shows "fresh c \<and> HasTarget c = (Target stmt \<noteq> None) \<and> Limit_c c = Limit stmt
       \<and> TimeFieldName c = ''time''"
proof -
  let ?c1 = "(newCompiler ext opt)\<lparr>Ascending := TimeAscending stmt, Limit_c := Limit stmt,
                 HasTarget := (Target stmt \<noteq> None)\<rparr>"
  from assms obtain cond t where
    ce: "ConditionExpr ext (Condition stmt) (Now (Options ?c1)) = Inr (cond, t)"
    by (cases "ConditionExpr ext (Condition stmt) (Now (Options ?c1))")
       (auto simp: preprocess_def Let_def)
  let ?c2 = "?c1\<lparr>Condition_c := cond, TimeRange_c := t\<rparr>"
  from assms ce obtain c3 where
    c3: "compileDimensions_loop ext ?c2 (Dimensions stmt) = Inr c3"
    by (cases "compileDimensions_loop ext ?c2 (Dimensions stmt)")
       (auto simp: preprocess_def compileDimensions_def Let_def)
  have f2: "fresh ?c2" "HasTarget ?c2 = (Target stmt \<noteq> None)" "Limit_c ?c2 = Limit stmt"
    "TimeFieldName ?c2 = ''time''"
    by (simp_all add: fresh_def newCompiler_def Let_def)
  from compileDimensions_loop_fresh [OF c3] f2
  have f3: "fresh c3 \<and> HasTarget c3 = (Target stmt \<noteq> None) \<and> Limit_c c3 = Limit stmt
       \<and> TimeFieldName c3 = ''time''"
    by (simp add: frame_def)
  from assms ce c3 have "fresh c = fresh c3 \<and> HasTarget c = HasTarget c3
       \<and> Limit_c c = Limit_c c3 \<and> TimeFieldName c = TimeFieldName c3"
    by (auto simp: preprocess_def compileDimensions_def Let_def fresh_def split: if_splits)
  with f3 show ?thesis by simp
qed

lemma Compile_unfold:
  assumes "preprocess ext (newCompiler ext opt) stmt = Inr c"
  shows "Compile ext stmt opt = compile ext c stmt"
  using assms by (simp add: Compile_def)

lemma example_select_preprocess:
  "preprocess (ext_example no_range)
     (newCompiler (ext_example no_range) \<lparr>Now = 1500000000000000000\<rparr>) (example_select fs l)
   = Inr (example_fresh l)"
  by (simp add: preprocess_def newCompiler_def ext_example_def no_range_def example_select_def
        example_fresh_def compileDimensions_def Let_def TimeAscending_def IsZero_time_def
        zero_time_def IsZero_def Unix_nano_def MinTime_def MaxTime_def)

section \<open>The time field\<close>

lemma compileFields_loop_all_time:
  "\<forall>f \<in> set fs. is_time_field f \<Longrightarrow>
     \<exists>c'. compileFields_loop c fs = Inr c' \<and> Fields_c c' = Fields_c c"
proof (induction fs arbitrary: c)
  case Nil
  then show ?case by simp
next
  case (Cons f fs)
  have f: "is_time_field f" and fs: "\<forall>f \<in> set fs. is_time_field f"
    using Cons.prems by simp_all
  let ?c1 = "if Alias f \<noteq> [] then c\<lparr>TimeFieldName := Alias f\<rparr> else c"
  from Cons.IH [OF fs, of ?c1] obtain c' where
    "compileFields_loop ?c1 fs = Inr c'" "Fields_c c' = Fields_c ?c1" by blast
  with f show ?case by auto
qed

lemma compile_only_time_fields:
  assumes "\<forall>f \<in> set (Fields stmt). is_time_field f"
  shows "compile ext c stmt = Inl AtLeastOneNonTimeField"
proof -
  obtain c' where c': "compileFields_loop (c\<lparr>Fields_c := []\<rparr>) (Fields stmt) = Inr c'"
      "Fields_c c' = []"
    using compileFields_loop_all_time [OF assms, of "c\<lparr>Fields_c := []\<rparr>"] by auto
  then show ?thesis
    by (simp add: compile_unfold compileFields_def validateFields_def)
qed

lemma validateFields_no_field:
  "validateFields c = Some AtLeastOneNonTimeField \<longleftrightarrow> Fields_c c = []"
  by (auto simp: validateFields_def split: if_splits)

text \<open>
  C10. The selected fields that are a bare variable reference named exactly \<open>time\<close> are
  left out of the compiled field list: whenever the fields of a statement compile, the
  compiled field list holds, in order, the selected fields other than those references
  (each followed by the extra fields of its \<open>top\<close> or \<open>bottom\<close> call), whatever stands
  beside them in the statement, and the name of the time column is the alias of the
  last \<open>time\<close> reference that has one, or what it was before. Such a reference does not
  count as a field: the validation reports that no field other than \<open>time\<close> is selected
  exactly when every selected field is such a reference, and a statement all of whose
  selected fields are such references fails with the at-least-one-non-time-field error.
\<close>

theorem time_fields_skipped:
  "(compileFields c stmt = Inr c' \<longrightarrow>
      Fields_c c' = concat (map (\<lambda>f. f # extra_fields (HasTarget c) (Expr f))
                              (filter (\<lambda>f. \<not> is_time_field f) (Fields stmt)))
      \<and> TimeFieldName c' = time_field_name (TimeFieldName c) (Fields stmt)
      \<and> (validateFields c' = Some AtLeastOneNonTimeField
           \<longleftrightarrow> (\<forall>f \<in> set (Fields stmt). is_time_field f)))
   \<and> ((\<forall>f \<in> set (Fields stmt). is_time_field f) \<longrightarrow>
        (\<exists>c'. compileFields c stmt = Inr c' \<and> Fields_c c' = [])
        \<and> compile ext c stmt = Inl AtLeastOneNonTimeField)"
proof (intro conjI impI)
  assume a: "compileFields c stmt = Inr c'"
  note e = compileFields_effect [OF a]
  from e show f: "Fields_c c' = concat (map (\<lambda>f. f # extra_fields (HasTarget c) (Expr f))
                              (filter (\<lambda>f. \<not> is_time_field f) (Fields stmt)))"
    by (simp add: selected_fields_def selected_def)
  from e show "TimeFieldName c' = time_field_name (TimeFieldName c) (Fields stmt)"
    by simp
  have "Fields_c c' = [] \<longleftrightarrow> (\<forall>f \<in> set (Fields stmt). is_time_field f)"
    unfolding f by (auto simp: filter_empty_conv)
  then show "validateFields c' = Some AtLeastOneNonTimeField
           \<longleftrightarrow> (\<forall>f \<in> set (Fields stmt). is_time_field f)"
    by (simp add: validateFields_no_field)
next
  assume a: "\<forall>f \<in> set (Fields stmt). is_time_field f"
  from compileFields_loop_all_time [OF a, of "c\<lparr>Fields_c := []\<rparr>"]
  show "\<exists>c'. compileFields c stmt = Inr c' \<and> Fields_c c' = []"
    by (simp add: compileFields_def)
  from a show "compile ext c stmt = Inl AtLeastOneNonTimeField"
    by (rule compile_only_time_fields)
qed

lemma example_time_max_fields:
  "compileFields (example_fresh 0)
     (example_select [\<lparr>Expr = VarRef ''time'', Alias = ''timestamp''\<rparr>,
                      \<lparr>Expr = Call ''max'' [VarRef ''value''], Alias = []\<rparr>,
                      \<lparr>Expr = VarRef ''time'', Alias = []\<rparr>] 0)
   = Inr ((example_fresh 0)
       \<lparr>FunctionCalls := [Call ''max'' [VarRef ''value'']],
        Fields_c := [\<lparr>Expr = Call ''max'' [VarRef ''value''], Alias = []\<rparr>],
        TimeFieldName := ''timestamp''\<rparr>)"
  by (simp add: compileFields_def example_select_def example_fresh_def is_time_field_def
        compileFunction_def compileSymbol_def with_flag_def Let_def)

text \<open>
  \<open>SELECT time AS timestamp, max(value), time FROM cpu\<close> compiles to the one field
  \<open>max(value)\<close> with the time column named \<open>timestamp\<close>;
  \<open>SELECT time AS timestamp, time FROM cpu\<close> fails.
\<close>

theorem time_fields_skipped_witness:
  "compileFields (example_fresh 0)
     (example_select [\<lparr>Expr = VarRef ''time'', Alias = ''timestamp''\<rparr>,
                      \<lparr>Expr = Call ''max'' [VarRef ''value''], Alias = []\<rparr>,
                      \<lparr>Expr = VarRef ''time'', Alias = []\<rparr>] 0)
   = Inr ((example_fresh 0)
       \<lparr>FunctionCalls := [Call ''max'' [VarRef ''value'']],
        Fields_c := [\<lparr>Expr = Call ''max'' [VarRef ''value''], Alias = []\<rparr>],
        TimeFieldName := ''timestamp''\<rparr>)
   \<and> concat (map (\<lambda>f. f # extra_fields False (Expr f))
        (filter (\<lambda>f. \<not> is_time_field f)
           [\<lparr>Expr = VarRef ''time'', Alias = ''timestamp''\<rparr>,
            \<lparr>Expr = Call ''max'' [VarRef ''value''], Alias = []\<rparr>,
            \<lparr>Expr = VarRef ''time'', Alias = []\<rparr>]))
     = [\<lparr>Expr = Call ''max'' [VarRef ''value''], Alias = []\<rparr>]
   \<and> time_field_name ''time''
        [\<lparr>Expr = VarRef ''time'', Alias = ''timestamp''\<rparr>,
         \<lparr>Expr = Call ''max'' [VarRef ''value''], Alias = []\<rparr>,
         \<lparr>Expr = VarRef ''time'', Alias = []\<rparr>] = ''timestamp''
   \<and> validateFields ((example_fresh 0)
       \<lparr>FunctionCalls := [Call ''max'' [VarRef ''value'']],
        Fields_c := [\<lparr>Expr = Call ''max'' [VarRef ''value''], Alias = []\<rparr>],
        TimeFieldName := ''timestamp''\<rparr>) \<noteq> Some AtLeastOneNonTimeField
   \<and> is_time_field \<lparr>Expr = VarRef ''time'', Alias = ''timestamp''\<rparr>
   \<and> is_time_field \<lparr>Expr = VarRef ''time'', Alias = []\<rparr>
   \<and> compile (ext_example no_range) (example_fresh 0)
        (example_select [\<lparr>Expr = VarRef ''time'', Alias = ''timestamp''\<rparr>,
                         \<lparr>Expr = VarRef ''time'', Alias = []\<rparr>] 0)
     = Inl AtLeastOneNonTimeField"
proof -
  let ?t = "\<lparr>Expr = VarRef ''time'', Alias = ''timestamp''\<rparr>"
  let ?m = "\<lparr>Expr = Call ''max'' [VarRef ''value''], Alias = []\<rparr>"
  let ?u = "\<lparr>Expr = VarRef ''time'', Alias = []\<rparr>"
  let ?c' = "(example_fresh 0)\<lparr>FunctionCalls := [Call ''max'' [VarRef ''value'']],
        Fields_c := [?m], TimeFieldName := ''timestamp''\<rparr>"
  have tf: "is_time_field ?t" "is_time_field ?u" "\<not> is_time_field ?m"
    by (simp_all add: is_time_field_def)
  have fs: "Fields (example_select [?t, ?m, ?u] 0) = [?t, ?m, ?u]"
           "Fields (example_select [?t, ?u] 0) = [?t, ?u]"
    by (simp_all add: example_select_def)
  have fr: "HasTarget (example_fresh 0) = False" "TimeFieldName (example_fresh 0) = ''time''"
    by (simp_all add: example_fresh_def)
  have nm: "time_field_name ''time'' [?t, ?m, ?u] = ''timestamp''"
    by (simp add: time_field_name_def is_time_field_def)
  note a = time_fields_skipped [of "example_fresh 0" "example_select [?t, ?m, ?u] 0" ?c'
             "ext_example no_range", THEN conjunct1, THEN mp, OF example_time_max_fields,
             unfolded fs fr]
  note b = time_fields_skipped [of "example_fresh 0" "example_select [?t, ?u] 0" ?c'
             "ext_example no_range", THEN conjunct2, THEN mp, unfolded fs]
  have all: "\<forall>f \<in> set [?t, ?u]. is_time_field f"
    using tf by simp
  from a have a1: "validateFields ?c' \<noteq> Some AtLeastOneNonTimeField"
    using tf by simp
  from a tf have a2: "concat (map (\<lambda>f. f # extra_fields False (Expr f))
        (filter (\<lambda>f. \<not> is_time_field f) [?t, ?m, ?u])) = [?m]"
    by simp
  from b [OF all] have b1: "compile (ext_example no_range) (example_fresh 0)
        (example_select [?t, ?u] 0) = Inl AtLeastOneNonTimeField"
    by simp
  from example_time_max_fields a1 a2 nm tf b1 show ?thesis by simp
qed

section \<open>distinct\<close>

lemma uses_distinct_calls: "uses_distinct e \<Longrightarrow> calls_of e \<noteq> []"
  by (induction e) auto

lemma selects_distinct_calls:
  assumes "selects_distinct stmt"
  shows "selected stmt \<noteq> [] \<and> selected_calls stmt \<noteq> []"
proof -
  from assms obtain f where f: "f \<in> set (selected stmt)" "uses_distinct (Expr f)"
    by (auto simp: selects_distinct_def list_ex_iff)
  from f(2) have "calls_of (Expr f) \<noteq> []" by (rule uses_distinct_calls)
  with f(1) show ?thesis by (auto simp: selected_calls_def)
qed

lemma validateFields_distinct:
  assumes "HasDistinct c" and "Fields_c c \<noteq> []" and "FunctionCalls c \<noteq> []"
  shows "(validateFields c = None \<longleftrightarrow> length (FunctionCalls c) = 1 \<and> \<not> HasAuxiliaryFields c)
       \<and> (validateFields c = None \<or> validateFields c = Some DistinctCannotBeCombined
            \<or> validateFields c = Some (SelectorCannotBeCombined (TopBottomFunction c)))"
  using assms by (auto simp: validateFields_def)

text \<open>
  C6, as the specification states it, fails: in \<open>SELECT distinct(a, b) FROM cpu\<close> the
  call of \<open>distinct\<close> is the only function call and there is no auxiliary field, and the
  compilation fails, because \<open>distinct\<close> takes one argument.
\<close>

theorem distinct_counterexample:
  "selects_distinct
     (example_select [\<lparr>Expr = Call ''distinct'' [VarRef ''a'', VarRef ''b''], Alias = []\<rparr>] 0)
   \<and> selected_calls
       (example_select [\<lparr>Expr = Call ''distinct'' [VarRef ''a'', VarRef ''b''], Alias = []\<rparr>] 0)
     = [Call ''distinct'' [VarRef ''a'', VarRef ''b'']]
   \<and> \<not> selects_auxiliary False
       (example_select [\<lparr>Expr = Call ''distinct'' [VarRef ''a'', VarRef ''b''], Alias = []\<rparr>] 0)
   \<and> Compile (ext_example no_range)
       (example_select [\<lparr>Expr = Call ''distinct'' [VarRef ''a'', VarRef ''b''], Alias = []\<rparr>] 0)
       \<lparr>Now = 1500000000000000000\<rparr>
     = Inl DistinctOnlyOneArgument"
proof -
  let ?s = "example_select [\<lparr>Expr = Call ''distinct'' [VarRef ''a'', VarRef ''b''], Alias = []\<rparr>] 0"
  have "compileFields (example_fresh 0) ?s = Inl DistinctOnlyOneArgument"
    by (simp add: compileFields_def example_select_def example_fresh_def is_time_field_def
          compileDistinct_def with_flag_def Let_def)
  then have "Compile (ext_example no_range) ?s \<lparr>Now = 1500000000000000000\<rparr>
               = Inl DistinctOnlyOneArgument"
    by (simp add: Compile_unfold [OF example_select_preprocess] compile_unfold)
  moreover have "selects_distinct ?s" "\<not> selects_auxiliary False ?s"
    "selected_calls ?s = [Call ''distinct'' [VarRef ''a'', VarRef ''b'']]"
    by (simp_all add: selects_distinct_def selects_auxiliary_def selected_calls_def selected_def
          example_select_def is_time_field_def)
  ultimately show ?thesis by simp
qed

text \<open>
  C6, amended. Take a statement whose selected fields use \<open>distinct\<close>, as the call
  \<open>distinct(x)\<close>, in the syntax form \<open>DISTINCT x\<close> or as \<open>count(distinct(x))\<close>, that
  passes the preprocessing and whose selected fields each pass the checks of their own
  arguments. The validation of its fields succeeds if and only if the selected fields
  hold exactly one function call (\<open>count(distinct(x))\<close> being the one call \<open>count\<close>) and
  bring no auxiliary field; otherwise it fails, with the error that \<open>distinct\<close> cannot
  be combined or, when \<open>top\<close> or \<open>bottom\<close> is among the calls, with the error that the
  selector cannot be combined. The compilation of the statement succeeds if and only
  if, beyond that, every subquery among its sources compiles.
\<close>

theorem distinct_sole_call:
  assumes "preprocess ext (newCompiler ext opt) stmt = Inr c"
      and "compileFields c stmt = Inr c'"
      and "selects_distinct stmt"
  shows "(validateFields c' = None
            \<longleftrightarrow> length (selected_calls stmt) = 1
                \<and> \<not> selects_auxiliary (Target stmt \<noteq> None) stmt)
       \<and> (validateFields c' = None \<or> validateFields c' = Some DistinctCannotBeCombined
            \<or> validateFields c' = Some (SelectorCannotBeCombined (TopBottomFunction c')))
       \<and> ((\<exists>r. Compile ext stmt opt = Inr r)
            \<longleftrightarrow> length (selected_calls stmt) = 1
                \<and> \<not> selects_auxiliary (Target stmt \<noteq> None) stmt
                \<and> compile_sources ext c' (Sources stmt) = None)"
proof -
  note p = preprocess_fresh [OF assms(1)]
  note e = compileFields_effect [OF assms(2)]
  note d = selects_distinct_calls [OF assms(3)]
  from p e have calls: "FunctionCalls c' = selected_calls stmt"
    and aux: "HasAuxiliaryFields c' = selects_auxiliary (Target stmt \<noteq> None) stmt"
    and flds: "Fields_c c' = selected_fields (Target stmt \<noteq> None) stmt"
    by (simp_all add: fresh_def)
  from e assms(3) have hd: "HasDistinct c'" by simp
  from flds d have nf: "Fields_c c' \<noteq> []" by (simp add: selected_fields_Nil)
  from calls d have nc: "FunctionCalls c' \<noteq> []" by simp
  note v = validateFields_distinct [OF hd nf nc, unfolded calls aux]
  have cmp: "(\<exists>r. Compile ext stmt opt = Inr r)
          \<longleftrightarrow> validateFields c' = None \<and> compile_sources ext c' (Sources stmt) = None"
    by (auto simp: Compile_unfold [OF assms(1)] compile_unfold assms(2)
             split: option.splits)
  note v1 = conjunct1 [OF v]
  show ?thesis
  proof (intro conjI)
    show "validateFields c' = None
            \<longleftrightarrow> length (selected_calls stmt) = 1
                \<and> \<not> selects_auxiliary (Target stmt \<noteq> None) stmt"
      by (rule v1)
    show "validateFields c' = None \<or> validateFields c' = Some DistinctCannotBeCombined
            \<or> validateFields c' = Some (SelectorCannotBeCombined (TopBottomFunction c'))"
      by (rule conjunct2 [OF v])
    show "(\<exists>r. Compile ext stmt opt = Inr r)
            \<longleftrightarrow> length (selected_calls stmt) = 1
                \<and> \<not> selects_auxiliary (Target stmt \<noteq> None) stmt
                \<and> compile_sources ext c' (Sources stmt) = None"
      unfolding cmp v1 by (simp add: conj_assoc)
  qed
qed

lemma example_distinct_fields:
  "compileFields (example_fresh 0)
     (example_select [\<lparr>Expr = Call ''distinct'' [VarRef ''value''], Alias = []\<rparr>] 0)
   = Inr ((example_fresh 0)
       \<lparr>FunctionCalls := [Call ''distinct'' [VarRef ''value'']],
        OnlySelectors := False, HasDistinct := True,
        Fields_c := [\<lparr>Expr = Call ''distinct'' [VarRef ''value''], Alias = []\<rparr>]\<rparr>)"
  by (simp add: compileFields_def example_select_def example_fresh_def is_time_field_def
        compileDistinct_def with_flag_def Let_def)

lemma example_distinct_host_fields:
  "compileFields (example_fresh 0)
     (example_select [\<lparr>Expr = Call ''distinct'' [VarRef ''value''], Alias = []\<rparr>,
                      \<lparr>Expr = VarRef ''host'', Alias = []\<rparr>] 0)
   = Inr ((example_fresh 0)
       \<lparr>FunctionCalls := [Call ''distinct'' [VarRef ''value'']],
        OnlySelectors := False, HasDistinct := True, HasAuxiliaryFields := True,
        Fields_c := [\<lparr>Expr = Call ''distinct'' [VarRef ''value''], Alias = []\<rparr>,
                     \<lparr>Expr = VarRef ''host'', Alias = []\<rparr>]\<rparr>)"
  by (simp add: compileFields_def example_select_def example_fresh_def is_time_field_def
        compileDistinct_def compileVarRef_def with_flag_def Let_def)

text \<open>
  \<open>SELECT distinct(value) FROM cpu\<close> compiles; \<open>SELECT distinct(value), host FROM cpu\<close>
  brings the auxiliary field \<open>host\<close> and is rejected by the validation.
\<close>

theorem distinct_sole_call_witness:
  "preprocess (ext_example no_range)
     (newCompiler (ext_example no_range) \<lparr>Now = 1500000000000000000\<rparr>)
     (example_select [\<lparr>Expr = Call ''distinct'' [VarRef ''value''], Alias = []\<rparr>] 0)
   = Inr (example_fresh 0)
   \<and> compileFields (example_fresh 0)
       (example_select [\<lparr>Expr = Call ''distinct'' [VarRef ''value''], Alias = []\<rparr>] 0)
     = Inr ((example_fresh 0)
         \<lparr>FunctionCalls := [Call ''distinct'' [VarRef ''value'']],
          OnlySelectors := False, HasDistinct := True,
          Fields_c := [\<lparr>Expr = Call ''distinct'' [VarRef ''value''], Alias = []\<rparr>]\<rparr>)
   \<and> selects_distinct
       (example_select [\<lparr>Expr = Call ''distinct'' [VarRef ''value''], Alias = []\<rparr>] 0)
   \<and> length (selected_calls
       (example_select [\<lparr>Expr = Call ''distinct'' [VarRef ''value''], Alias = []\<rparr>] 0)) = 1
   \<and> \<not> selects_auxiliary False
       (example_select [\<lparr>Expr = Call ''distinct'' [VarRef ''value''], Alias = []\<rparr>] 0)
   \<and> validateFields ((example_fresh 0)
         \<lparr>FunctionCalls := [Call ''distinct'' [VarRef ''value'']],
          OnlySelectors := False, HasDistinct := True,
          Fields_c := [\<lparr>Expr = Call ''distinct'' [VarRef ''value''], Alias = []\<rparr>]\<rparr>) = None
   \<and> Compile (ext_example no_range)
       (example_select [\<lparr>Expr = Call ''distinct'' [VarRef ''value''], Alias = []\<rparr>] 0)
       \<lparr>Now = 1500000000000000000\<rparr>
     = Inr ((example_fresh 0)
         \<lparr>FunctionCalls := [Call ''distinct'' [VarRef ''value'']],
          OnlySelectors := False, HasDistinct := True,
          Fields_c := [\<lparr>Expr = Call ''distinct'' [VarRef ''value''], Alias = []\<rparr>]\<rparr>)
   \<and> selects_distinct
       (example_select [\<lparr>Expr = Call ''distinct'' [VarRef ''value''], Alias = []\<rparr>,
                        \<lparr>Expr = VarRef ''host'', Alias = []\<rparr>] 0)
   \<and> selects_auxiliary False
       (example_select [\<lparr>Expr = Call ''distinct'' [VarRef ''value''], Alias = []\<rparr>,
                        \<lparr>Expr = VarRef ''host'', Alias = []\<rparr>] 0)
   \<and> validateFields ((example_fresh 0)
       \<lparr>FunctionCalls := [Call ''distinct'' [VarRef ''value'']],
        OnlySelectors := False, HasDistinct := True, HasAuxiliaryFields := True,
        Fields_c := [\<lparr>Expr = Call ''distinct'' [VarRef ''value''], Alias = []\<rparr>,
                     \<lparr>Expr = VarRef ''host'', Alias = []\<rparr>]\<rparr>) \<noteq> None"
proof -
  let ?d = "\<lparr>Expr = Call ''distinct'' [VarRef ''value''], Alias = []\<rparr>"
  let ?h = "\<lparr>Expr = VarRef ''host'', Alias = []\<rparr>"
  let ?s1 = "example_select [?d] 0"
  let ?s2 = "example_select [?d, ?h] 0"
  have sd: "selects_distinct ?s1" "selects_distinct ?s2"
    by (simp_all add: selects_distinct_def selected_def example_select_def is_time_field_def)
  have calls: "length (selected_calls ?s1) = 1"
    by (simp add: selected_calls_def selected_def example_select_def is_time_field_def)
  have aux: "\<not> selects_auxiliary False ?s1" "selects_auxiliary False ?s2"
    by (simp_all add: selects_auxiliary_def selected_def example_select_def is_time_field_def)
  have tg: "(Target ?s1 \<noteq> None) = False" "(Target ?s2 \<noteq> None) = False"
    "Sources ?s1 = [Measurement ''cpu'']"
    by (simp_all add: example_select_def)
  note a = distinct_sole_call [OF example_select_preprocess example_distinct_fields sd(1),
             unfolded tg]
  note b = distinct_sole_call [OF example_select_preprocess example_distinct_host_fields sd(2),
             unfolded tg]
  from a calls aux(1) have a1: "validateFields ((example_fresh 0)
         \<lparr>FunctionCalls := [Call ''distinct'' [VarRef ''value'']],
          OnlySelectors := False, HasDistinct := True,
          Fields_c := [?d]\<rparr>) = None"
    by blast
  from a1 have a2: "Compile (ext_example no_range) ?s1 \<lparr>Now = 1500000000000000000\<rparr>
     = Inr ((example_fresh 0)
         \<lparr>FunctionCalls := [Call ''distinct'' [VarRef ''value'']],
          OnlySelectors := False, HasDistinct := True,
          Fields_c := [?d]\<rparr>)"
    by (simp add: Compile_unfold [OF example_select_preprocess] compile_unfold
          example_distinct_fields tg)
  from b aux(2) have b1: "validateFields ((example_fresh 0)
       \<lparr>FunctionCalls := [Call ''distinct'' [VarRef ''value'']],
        OnlySelectors := False, HasDistinct := True, HasAuxiliaryFields := True,
        Fields_c := [?d, ?h]\<rparr>) \<noteq> None"
    by blast
  from example_select_preprocess [of "[?d]" 0] example_distinct_fields sd calls aux a1 a2 b1
  show ?thesis by blast
qed

text \<open>
  The other two forms of \<open>distinct\<close>: \<open>SELECT DISTINCT value FROM cpu\<close> registers the
  call \<open>distinct(value)\<close>, \<open>SELECT count(distinct(value)) FROM cpu\<close> registers the one
  call \<open>count\<close>, and both compile.
\<close>

lemma example_distinct_forms:
  "Compile (ext_example no_range)
     (example_select [\<lparr>Expr = Distinct ''value'', Alias = []\<rparr>] 0)
     \<lparr>Now = 1500000000000000000\<rparr>
   = Inr ((example_fresh 0)
       \<lparr>FunctionCalls := [Call ''distinct'' [VarRef ''value'']],
        OnlySelectors := False, HasDistinct := True,
        Fields_c := [\<lparr>Expr = Distinct ''value'', Alias = []\<rparr>]\<rparr>)
   \<and> Compile (ext_example no_range)
     (example_select
        [\<lparr>Expr = Call ''count'' [Call ''distinct'' [VarRef ''value'']], Alias = []\<rparr>] 0)
     \<lparr>Now = 1500000000000000000\<rparr>
   = Inr ((example_fresh 0)
       \<lparr>FunctionCalls := [Call ''count'' [Call ''distinct'' [VarRef ''value'']]],
        OnlySelectors := False, HasDistinct := True,
        Fields_c := [\<lparr>Expr = Call ''count'' [Call ''distinct'' [VarRef ''value'']],
                      Alias = []\<rparr>]\<rparr>)"
proof -
  let ?s1 = "example_select [\<lparr>Expr = Distinct ''value'', Alias = []\<rparr>] 0"
  let ?s2 = "example_select
        [\<lparr>Expr = Call ''count'' [Call ''distinct'' [VarRef ''value'']], Alias = []\<rparr>] 0"
  let ?c1 = "(example_fresh 0)
       \<lparr>FunctionCalls := [Call ''distinct'' [VarRef ''value'']],
        OnlySelectors := False, HasDistinct := True,
        Fields_c := [\<lparr>Expr = Distinct ''value'', Alias = []\<rparr>]\<rparr>"
  let ?c2 = "(example_fresh 0)
       \<lparr>FunctionCalls := [Call ''count'' [Call ''distinct'' [VarRef ''value'']]],
        OnlySelectors := False, HasDistinct := True,
        Fields_c := [\<lparr>Expr = Call ''count'' [Call ''distinct'' [VarRef ''value'']],
                      Alias = []\<rparr>]\<rparr>"
  have f: "compileFields (example_fresh 0) ?s1 = Inr ?c1"
          "compileFields (example_fresh 0) ?s2 = Inr ?c2"
    by (simp_all add: compileFields_def example_select_def example_fresh_def is_time_field_def
          compileDistinct_def compileFunction_def NewCall_def with_flag_def Let_def)
  have v: "validateFields ?c1 = None" "validateFields ?c2 = None"
    by (simp_all add: validateFields_def example_fresh_def IsZero_def)
  have s: "Sources ?s1 = [Measurement ''cpu'']" "Sources ?s2 = [Measurement ''cpu'']"
    by (simp_all add: example_select_def)
  show ?thesis
    by (simp add: Compile_unfold [OF example_select_preprocess] compile_unfold f v s)
qed

section \<open>top and bottom\<close>








end
